theory Spec2Isabelle
  imports Main
begin

section \<open>Python values, heap objects and the host environment\<close>

text \<open>
  The module \<^verbatim>\<open>iter_dispatch.py\<close> branches on \<^verbatim>\<open>six.PY2\<close> / \<^verbatim>\<open>six.PY3\<close> and on
  \<^verbatim>\<open>NUMPY_AVAILABLE\<close>; both are fixed when the module is imported and are parameters
  of the model.
\<close>

datatype pyversion = PY2 | PY3

record config =
  six :: pyversion
  NUMPY_AVAILABLE :: bool

text \<open>The exceptions that occur. \<open>StopIteration\<close> is how \<^verbatim>\<open>__next__\<close> signals exhaustion.\<close>

datatype exn = StopIteration | IOError | AssertionError | TypeError | AttributeError
  | IndexError | KeyError

text \<open>
  Immutable values are held directly; mutable objects (lists, dictionaries, arrays, open
  files) live in a heap and are held by reference, so that sharing between the caller's
  container and an iterator is visible. \<open>XRangeV start stop step\<close> is a range object
  with the three numbers its \<^verbatim>\<open>__reduce__\<close> reports.
\<close>

type_synonym addr = nat

datatype val = IntV int | StrV string | NoneV | TupleV "val list" | XRangeV int int int
  | RefV addr

text \<open>
  An open file: the name it was opened under, its mode string, the current offset
  (what \<^verbatim>\<open>tell()\<close> returns) and its content. A \<^verbatim>\<open>gzip.GzipFile\<close> opened by name has a
  mode attribute of its own (the integer constant \<^verbatim>\<open>READ\<close>), an offset into the
  decompressed content, and in \<^verbatim>\<open>myfileobj\<close> the raw file object it opened. The library
  decompresses lazily: a \<^verbatim>\<open>GzipFile\<close> over data that is not in the compressed format
  opens, and raises when it first has to read; its content is then \<open>None\<close>.

  Two more kinds of file object reach the dispatcher. An in-memory stream
  (\<^verbatim>\<open>io.StringIO\<close>, \<^verbatim>\<open>io.BytesIO\<close>) has an offset and a content, and neither a \<^verbatim>\<open>name\<close>
  nor a \<^verbatim>\<open>mode\<close> attribute. A \<^verbatim>\<open>GzipFile\<close> built over a file object of the caller
  (\<^verbatim>\<open>GzipFile(fileobj=...)\<close>) has a name, a mode and an offset, and its \<^verbatim>\<open>myfileobj\<close>
  is \<^verbatim>\<open>None\<close>.
\<close>

record fileobj =
  f_name :: string
  f_mode :: string
  f_pos :: nat
  f_data :: string

record gzfile =
  gz_name :: string
  gz_mode :: val
  gz_pos :: nat
  gz_data :: "string option"
  myfileobj :: fileobj

record memstream =
  m_pos :: nat
  m_data :: string

record gzover =
  go_name :: string
  go_mode :: val
  go_pos :: nat
  go_data :: "string option"

datatype view_kind = Keys | Values | Items

datatype obj = OList "val list" | ODict "(val \<times> val) list" | ODictView view_kind addr
  | ONdarray "val list" | OFile fileobj | OGzipFile gzfile | OStringIO memstream
  | OGzipOver gzover

type_synonym heap = "obj list"

definition deref :: "heap \<Rightarrow> val \<Rightarrow> obj option" where
  "deref h v = (case v of RefV a \<Rightarrow> (if a < length h then Some (h ! a) else None)
                | _ \<Rightarrow> None)"

definition alloc :: "heap \<Rightarrow> obj \<Rightarrow> heap \<times> val" where
  "alloc h ob = (h @ [ob], RefV (length h))"

definition store :: "heap \<Rightarrow> val \<Rightarrow> obj \<Rightarrow> heap" where
  "store h v ob = (case v of RefV a \<Rightarrow> h[a := ob] | _ \<Rightarrow> h)"

subsection \<open>The file system and the open primitives\<close>

text \<open>
  The host environment: the files that can be opened by name, the decompression
  routine of the compression library (\<open>None\<close> for data that is not in the compressed
  format), and the largest offset the file system lets a file seek to. The model of
  \<^verbatim>\<open>open\<close> covers modes that read; a mode string is carried through unchanged.
\<close>

record env =
  files :: "string \<Rightarrow> string option"
  gunzip :: "string \<Rightarrow> string option"
  max_offset :: nat

text \<open>\<^verbatim>\<open>open(name, mode=mode)\<close>: a name that does not resolve raises \<^verbatim>\<open>IOError\<close>.\<close>

definition py_open :: "env \<Rightarrow> string \<Rightarrow> val \<Rightarrow> exn + fileobj" where
  "py_open e name mode =
     (case mode of
        StrV m \<Rightarrow>
          (case files e name of
             None \<Rightarrow> Inl IOError
           | Some d \<Rightarrow> Inr \<lparr>f_name = name, f_mode = m, f_pos = 0, f_data = d\<rparr>)
      | _ \<Rightarrow> Inl TypeError)"

text \<open>
  \<^verbatim>\<open>gzip.open(name, mode=mode)\<close>: the library opens the raw file itself (in binary
  mode) and keeps it in \<^verbatim>\<open>myfileobj\<close>; reads deliver the decompressed content. Opening
  does not read: data that is not in the compressed format is found out later.
\<close>

definition gzip_open :: "env \<Rightarrow> string \<Rightarrow> val \<Rightarrow> exn + gzfile" where
  "gzip_open e name mode =
     (case mode of
        StrV m \<Rightarrow>
          (case files e name of
             None \<Rightarrow> Inl IOError
           | Some raw \<Rightarrow>
               Inr \<lparr>gz_name = name, gz_mode = IntV 1, gz_pos = 0, gz_data = gunzip e raw,
                    myfileobj = \<lparr>f_name = name,
                                  f_mode = (if CHR ''b'' \<in> set m then m else m @ ''b''),
                                  f_pos = 0, f_data = raw\<rparr>\<rparr>)
      | _ \<Rightarrow> Inl TypeError)"

text \<open>
  \<^verbatim>\<open>readline()\<close>: the text from the current offset up to and including the next line
  terminator, or up to the end of the content; empty at the end of the stream.
\<close>

definition read_line :: "string \<Rightarrow> nat \<Rightarrow> string" where
  "read_line d p =
     (let rest = drop p d; l = takeWhile (\<lambda>c. c \<noteq> CHR 0x0A) rest
      in if length l < length rest then l @ [CHR 0x0A] else l)"

definition readline :: "obj \<Rightarrow> exn + (string \<times> obj)" where
  "readline ob =
     (case ob of
        OFile fo \<Rightarrow>
          (let l = read_line (f_data fo) (f_pos fo)
           in Inr (l, OFile (fo\<lparr>f_pos := f_pos fo + length l\<rparr>)))
      | OGzipFile g \<Rightarrow>
          (case gz_data g of
             None \<Rightarrow> Inl IOError
           | Some d \<Rightarrow>
               (let l = read_line d (gz_pos g)
                in Inr (l, OGzipFile (g\<lparr>gz_pos := gz_pos g + length l\<rparr>))))
      | OStringIO m \<Rightarrow>
          (let l = read_line (m_data m) (m_pos m)
           in Inr (l, OStringIO (m\<lparr>m_pos := m_pos m + length l\<rparr>)))
      | OGzipOver g \<Rightarrow>
          (case go_data g of
             None \<Rightarrow> Inl IOError
           | Some d \<Rightarrow>
               (let l = read_line d (go_pos g)
                in Inr (l, OGzipOver (g\<lparr>go_pos := go_pos g + length l\<rparr>))))
      | _ \<Rightarrow> Inl AttributeError)"

definition name_of :: "obj \<Rightarrow> exn + string" where
  "name_of ob = (case ob of OFile fo \<Rightarrow> Inr (f_name fo) | OGzipFile g \<Rightarrow> Inr (gz_name g)
                 | OGzipOver g \<Rightarrow> Inr (go_name g) | _ \<Rightarrow> Inl AttributeError)"

definition tell :: "obj \<Rightarrow> exn + nat" where
  "tell ob = (case ob of OFile fo \<Rightarrow> Inr (f_pos fo) | OGzipFile g \<Rightarrow> Inr (gz_pos g)
              | OStringIO m \<Rightarrow> Inr (m_pos m) | OGzipOver g \<Rightarrow> Inr (go_pos g)
              | _ \<Rightarrow> Inl AttributeError)"

definition mode_of :: "obj \<Rightarrow> exn + val" where
  "mode_of ob = (case ob of OFile fo \<Rightarrow> Inr (StrV (f_mode fo)) | OGzipFile g \<Rightarrow> Inr (gz_mode g)
                 | OGzipOver g \<Rightarrow> Inr (go_mode g) | _ \<Rightarrow> Inl AttributeError)"

definition myfileobj_mode :: "obj \<Rightarrow> exn + val" where
  "myfileobj_mode ob = (case ob of OGzipFile g \<Rightarrow> Inr (StrV (f_mode (myfileobj g)))
                        | _ \<Rightarrow> Inl AttributeError)"

text \<open>
  \<^verbatim>\<open>seek(p)\<close> on a plain file raises beyond the largest offset of the file system.
  On a \<^verbatim>\<open>GzipFile\<close> it rewinds if \<open>p\<close> is behind the current offset and then reads
  forward to \<open>p\<close>, or to the end of the content if that comes first; it raises if it has
  to read and the data is not in the compressed format.
\<close>

definition seek :: "env \<Rightarrow> fileobj \<Rightarrow> nat \<Rightarrow> exn + fileobj" where
  "seek e fo p = (if max_offset e < p then Inl IOError else Inr (fo\<lparr>f_pos := p\<rparr>))"

definition gz_seek :: "gzfile \<Rightarrow> nat \<Rightarrow> exn + gzfile" where
  "gz_seek g p =
     (if p = gz_pos g \<or> p = 0 then Inr (g\<lparr>gz_pos := p\<rparr>)
      else (case gz_data g of
              None \<Rightarrow> Inl IOError
            | Some d \<Rightarrow> Inr (g\<lparr>gz_pos := min p (length d)\<rparr>)))"

text \<open>
  What a reader sees of an open file object of any of the four kinds: the content it
  reads from and the offset it is at. A read only moves the offset. A file object is
  readable unless it is a \<^verbatim>\<open>GzipFile\<close> over data that is not in the compressed format.
\<close>

definition is_fileobj :: "obj \<Rightarrow> bool" where
  "is_fileobj ob = (case ob of OFile _ \<Rightarrow> True | OGzipFile _ \<Rightarrow> True | OStringIO _ \<Rightarrow> True
                    | OGzipOver _ \<Rightarrow> True | _ \<Rightarrow> False)"

definition readable :: "obj \<Rightarrow> bool" where
  "readable ob = (case ob of OFile _ \<Rightarrow> True | OGzipFile g \<Rightarrow> gz_data g \<noteq> None
                  | OStringIO _ \<Rightarrow> True | OGzipOver g \<Rightarrow> go_data g \<noteq> None | _ \<Rightarrow> False)"

definition obj_data :: "obj \<Rightarrow> string" where
  "obj_data ob = (case ob of OFile fo \<Rightarrow> f_data fo
                  | OGzipFile g \<Rightarrow> (case gz_data g of Some d \<Rightarrow> d | None \<Rightarrow> [])
                  | OStringIO m \<Rightarrow> m_data m
                  | OGzipOver g \<Rightarrow> (case go_data g of Some d \<Rightarrow> d | None \<Rightarrow> [])
                  | _ \<Rightarrow> [])"

definition obj_pos :: "obj \<Rightarrow> nat" where
  "obj_pos ob = (case ob of OFile fo \<Rightarrow> f_pos fo | OGzipFile g \<Rightarrow> gz_pos g
                 | OStringIO m \<Rightarrow> m_pos m | OGzipOver g \<Rightarrow> go_pos g | _ \<Rightarrow> 0)"

definition obj_set_pos :: "obj \<Rightarrow> nat \<Rightarrow> obj" where
  "obj_set_pos ob p = (case ob of OFile fo \<Rightarrow> OFile (fo\<lparr>f_pos := p\<rparr>)
                       | OGzipFile g \<Rightarrow> OGzipFile (g\<lparr>gz_pos := p\<rparr>)
                       | OStringIO m \<Rightarrow> OStringIO (m\<lparr>m_pos := p\<rparr>)
                       | OGzipOver g \<Rightarrow> OGzipOver (g\<lparr>go_pos := p\<rparr>)
                       | _ \<Rightarrow> ob)"

text \<open>
  The classes the source tests for. In Python 2 only a plain file is a \<^verbatim>\<open>file\<close>; in
  Python 3 every file object is an \<^verbatim>\<open>io.IOBase\<close>.
\<close>

definition is_open_file :: "config \<Rightarrow> heap \<Rightarrow> val \<Rightarrow> bool" where
  "is_open_file cfg h f =
     (case deref h f of
        Some (OFile _) \<Rightarrow> True
      | Some (OGzipFile _) \<Rightarrow> True
      | Some (OGzipOver _) \<Rightarrow> True
      | Some (OStringIO _) \<Rightarrow> six cfg = PY3
      | _ \<Rightarrow> False)"




subsection \<open>Containers: \<^verbatim>\<open>len\<close>, indexing, \<^verbatim>\<open>list(...)\<close>, \<^verbatim>\<open>isinstance\<close>\<close>

definition view_items :: "heap \<Rightarrow> view_kind \<Rightarrow> addr \<Rightarrow> val list" where
  "view_items h k d =
     (case deref h (RefV d) of
        Some (ODict kvs) \<Rightarrow>
          (case k of Keys \<Rightarrow> map fst kvs | Values \<Rightarrow> map snd kvs
           | Items \<Rightarrow> map (\<lambda>(a, b). TupleV [a, b]) kvs)
      | _ \<Rightarrow> [])"

definition range_len :: "int \<Rightarrow> int \<Rightarrow> int \<Rightarrow> nat" where
  "range_len a b c =
     (if 0 < c \<and> a < b then nat ((b - a + c - 1) div c)
      else if c < 0 \<and> b < a then nat ((a - b - c - 1) div (- c))
      else 0)"

definition range_items :: "int \<Rightarrow> int \<Rightarrow> int \<Rightarrow> val list" where
  "range_items a b c = map (\<lambda>i. IntV (a + int i * c)) [0 ..< range_len a b c]"

text \<open>The items the host iterates over, for the objects that are iterable containers.\<close>

definition iter_items :: "heap \<Rightarrow> val \<Rightarrow> val list option" where
  "iter_items h v =
     (case v of
        TupleV xs \<Rightarrow> Some xs
      | StrV s \<Rightarrow> Some (map (\<lambda>c. StrV [c]) s)
      | XRangeV a b c \<Rightarrow> Some (range_items a b c)
      | RefV a \<Rightarrow>
          (case deref h v of
             Some (OList xs) \<Rightarrow> Some xs
           | Some (ONdarray xs) \<Rightarrow> Some xs
           | Some (ODict kvs) \<Rightarrow> Some (map fst kvs)
           | Some (ODictView k d) \<Rightarrow> Some (view_items h k d)
           | _ \<Rightarrow> None)
      | _ \<Rightarrow> None)"

text \<open>\<^verbatim>\<open>len(s)\<close> and \<^verbatim>\<open>s[i]\<close> for a non-negative index \<open>i\<close>.\<close>

definition py_len :: "heap \<Rightarrow> val \<Rightarrow> exn + nat" where
  "py_len h v = (case iter_items h v of Some xs \<Rightarrow> Inr (length xs) | None \<Rightarrow> Inl TypeError)"

definition py_getitem :: "heap \<Rightarrow> val \<Rightarrow> nat \<Rightarrow> exn + val" where
  "py_getitem h v i =
     (case deref h v of
        Some (ODict kvs) \<Rightarrow>
          (case map_of kvs (IntV (int i)) of Some x \<Rightarrow> Inr x | None \<Rightarrow> Inl KeyError)
      | Some (ODictView k d) \<Rightarrow> Inl TypeError
      | _ \<Rightarrow>
          (case iter_items h v of
             Some xs \<Rightarrow> (if i < length xs then Inr (xs ! i) else Inl IndexError)
           | None \<Rightarrow> Inl TypeError))"

text \<open>\<^verbatim>\<open>list(obj.keys())\<close> of a dictionary and \<^verbatim>\<open>list(obj)\<close> of a view: a new list.\<close>

definition dict_keys :: "heap \<Rightarrow> val \<Rightarrow> val list" where
  "dict_keys h v = (case deref h v of Some (ODict kvs) \<Rightarrow> map fst kvs | _ \<Rightarrow> [])"

definition py_list :: "heap \<Rightarrow> val \<Rightarrow> val list" where
  "py_list h v = (case iter_items h v of Some xs \<Rightarrow> xs | None \<Rightarrow> [])"

datatype pyclass = C_dict | C_GzipFile | C_file | C_IOBase | C_list | C_tuple | C_xrange
  | C_ndarray | C_dict_view

definition instance_of :: "heap \<Rightarrow> val \<Rightarrow> pyclass \<Rightarrow> bool" where
  "instance_of h v c =
     (case c of
        C_dict \<Rightarrow> (case deref h v of Some (ODict _) \<Rightarrow> True | _ \<Rightarrow> False)
      | C_GzipFile \<Rightarrow> (case deref h v of Some (OGzipFile _) \<Rightarrow> True
                       | Some (OGzipOver _) \<Rightarrow> True | _ \<Rightarrow> False)
      | C_file \<Rightarrow> (case deref h v of Some (OFile _) \<Rightarrow> True | _ \<Rightarrow> False)
      | C_IOBase \<Rightarrow> (case deref h v of Some ob \<Rightarrow> is_fileobj ob | None \<Rightarrow> False)
      | C_list \<Rightarrow> (case deref h v of Some (OList _) \<Rightarrow> True | _ \<Rightarrow> False)
      | C_tuple \<Rightarrow> (case v of TupleV _ \<Rightarrow> True | _ \<Rightarrow> False)
      | C_xrange \<Rightarrow> (case v of XRangeV _ _ _ \<Rightarrow> True | _ \<Rightarrow> False)
      | C_ndarray \<Rightarrow> (case deref h v of Some (ONdarray _) \<Rightarrow> True | _ \<Rightarrow> False)
      | C_dict_view \<Rightarrow> (case deref h v of Some (ODictView _ _) \<Rightarrow> True | _ \<Rightarrow> False))"

definition isinstance :: "heap \<Rightarrow> val \<Rightarrow> pyclass list \<Rightarrow> bool" where
  "isinstance h v cs = list_ex (instance_of h v) cs"

section \<open>The iterator classes\<close>

subsection \<open>\<^verbatim>\<open>ordered_sequence_iterator\<close>\<close>

record ordered_sequence_iterator =
  sequence :: val
  position :: nat

definition ordered_sequence_iterator_init :: "val \<Rightarrow> ordered_sequence_iterator" where
  "ordered_sequence_iterator_init s = \<lparr>sequence = s, position = 0\<rparr>"

text \<open>
  \<^verbatim>\<open>__next__\<close> reads the heap and changes only the iterator's own position; the heap
  is not among its results.
\<close>

definition ordered_sequence_iterator_next ::
  "heap \<Rightarrow> ordered_sequence_iterator \<Rightarrow> (exn + val) \<times> ordered_sequence_iterator" where
  "ordered_sequence_iterator_next h it =
     (case py_len h (sequence it) of
        Inl e \<Rightarrow> (Inl e, it)
      | Inr n \<Rightarrow>
          if position it < n then
            (case py_getitem h (sequence it) (position it) of
               Inl e \<Rightarrow> (Inl e, it)
             | Inr v \<Rightarrow> (Inr v, it\<lparr>position := position it + 1\<rparr>))
          else (Inl StopIteration, it))"

subsection \<open>\<^verbatim>\<open>range_iterator\<close>\<close>

record range_iterator =
  r_start :: int
  r_stop :: int
  r_step :: int
  r_n :: int

definition range_iterator_init :: "val \<Rightarrow> exn + range_iterator" where
  "range_iterator_init x =
     (case x of
        XRangeV a b c \<Rightarrow> Inr \<lparr>r_start = a, r_stop = b, r_step = c, r_n = a\<rparr>
      | _ \<Rightarrow> Inl TypeError)"

definition range_iterator_next :: "range_iterator \<Rightarrow> (exn + val) \<times> range_iterator" where
  "range_iterator_next it =
     (if (0 < r_step it \<and> r_n it < r_stop it) \<or> (r_step it < 0 \<and> r_stop it < r_n it) then
        (Inr (IntV (r_n it)), it\<lparr>r_n := r_n it + r_step it\<rparr>)
      else (Inl StopIteration, it))"

subsection \<open>\<^verbatim>\<open>file_iterator\<close> and \<^verbatim>\<open>gfile_iterator\<close>\<close>

text \<open>
  Both classes have the single attribute \<^verbatim>\<open>_f\<close>, a reference to the open file object;
  \<^verbatim>\<open>gfile_iterator\<close> inherits \<^verbatim>\<open>__init__\<close> and \<^verbatim>\<open>__next__\<close> and overrides the two state
  methods. The constructors are the two \<^verbatim>\<open>__init__\<close>s.
\<close>

datatype file_it = file_iterator (file_f: val) | gfile_iterator (file_f: val)

definition set_f :: "file_it \<Rightarrow> val \<Rightarrow> file_it" where
  "set_f it r = (case it of file_iterator _ \<Rightarrow> file_iterator r
                 | gfile_iterator _ \<Rightarrow> gfile_iterator r)"

definition file_iterator_next :: "heap \<Rightarrow> file_it \<Rightarrow> (exn + val) \<times> heap" where
  "file_iterator_next h it =
     (case deref h (file_f it) of
        None \<Rightarrow> (Inl AttributeError, h)
      | Some ob \<Rightarrow>
          (case readline ob of
             Inl e \<Rightarrow> (Inl e, h)
           | Inr (line, ob') \<Rightarrow>
               (let h' = store h (file_f it) ob'
                in if line = [] then (Inl StopIteration, h') else (Inr (StrV line), h'))))"

type_synonym file_state = "string \<times> nat \<times> val"

definition file_iterator_getstate :: "heap \<Rightarrow> file_it \<Rightarrow> exn + file_state" where
  "file_iterator_getstate h it =
     (case deref h (file_f it) of
        None \<Rightarrow> Inl AttributeError
      | Some ob \<Rightarrow>
          (case name_of ob of
             Inl e \<Rightarrow> Inl e
           | Inr name \<Rightarrow>
               (case tell ob of
                  Inl e \<Rightarrow> Inl e
                | Inr pos \<Rightarrow>
                    (case mode_of ob of
                       Inl e \<Rightarrow> Inl e
                     | Inr mode \<Rightarrow> Inr (name, pos, mode)))))"

text \<open>
  \<^verbatim>\<open>__setstate__\<close> returns the exception raised (if any) together with the heap and the
  iterator as they are when it returns or raises: what was assigned before a raise
  stays assigned.
\<close>

definition file_iterator_setstate ::
  "env \<Rightarrow> heap \<Rightarrow> file_it \<Rightarrow> file_state \<Rightarrow> exn option \<times> heap \<times> file_it" where
  "file_iterator_setstate e h it state =
     (case state of (name, pos, mode) \<Rightarrow>
        (case py_open e name mode of
           Inl ex \<Rightarrow> (Some ex, h, it)
         | Inr fo \<Rightarrow>
             (let (h1, r) = alloc h (OFile fo);
                  it' = set_f it r
              in case seek e fo pos of
                   Inl ex \<Rightarrow> (Some ex, h1, it')
                 | Inr fo' \<Rightarrow> (None, store h1 r (OFile fo'), it'))))"

definition gfile_iterator_getstate :: "heap \<Rightarrow> file_it \<Rightarrow> exn + file_state" where
  "gfile_iterator_getstate h it =
     (case deref h (file_f it) of
        None \<Rightarrow> Inl AttributeError
      | Some ob \<Rightarrow>
          (case name_of ob of
             Inl e \<Rightarrow> Inl e
           | Inr name \<Rightarrow>
               (case tell ob of
                  Inl e \<Rightarrow> Inl e
                | Inr pos \<Rightarrow>
                    (case myfileobj_mode ob of
                       Inl e \<Rightarrow> Inl e
                     | Inr mode \<Rightarrow> Inr (name, pos, mode)))))"

definition gfile_iterator_setstate ::
  "env \<Rightarrow> heap \<Rightarrow> file_it \<Rightarrow> file_state \<Rightarrow> exn option \<times> heap \<times> file_it" where
  "gfile_iterator_setstate e h it state =
     (case state of (name, pos, mode) \<Rightarrow>
        (case gzip_open e name mode of
           Inl ex \<Rightarrow> (Some ex, h, it)
         | Inr g \<Rightarrow>
             (let (h1, r) = alloc h (OGzipFile g);
                  it' = set_f it r
              in case gz_seek g pos of
                   Inl ex \<Rightarrow> (Some ex, h1, it')
                 | Inr g' \<Rightarrow> (None, store h1 r (OGzipFile g'), it'))))"

text \<open>Method lookup by class.\<close>

definition file_it_getstate :: "heap \<Rightarrow> file_it \<Rightarrow> exn + file_state" where
  "file_it_getstate h it =
     (case it of file_iterator _ \<Rightarrow> file_iterator_getstate h it
      | gfile_iterator _ \<Rightarrow> gfile_iterator_getstate h it)"

definition file_it_setstate ::
  "env \<Rightarrow> heap \<Rightarrow> file_it \<Rightarrow> file_state \<Rightarrow> exn option \<times> heap \<times> file_it" where
  "file_it_setstate e h it state =
     (case it of file_iterator _ \<Rightarrow> file_iterator_setstate e h it state
      | gfile_iterator _ \<Rightarrow> gfile_iterator_setstate e h it state)"

subsection \<open>The host's native iterators\<close>

text \<open>
  \<^verbatim>\<open>iter(obj)\<close> of the host: an index into the container (the reference is dropped once
  the iterator is exhausted); a file object is its own iterator and yields its lines;
  anything else is not iterable.
\<close>

datatype native_iterator = seqiter "val option" nat | fileiter val

definition host_iter :: "heap \<Rightarrow> val \<Rightarrow> exn + native_iterator" where
  "host_iter h v =
     (if iter_items h v \<noteq> None then Inr (seqiter (Some v) 0)
      else if isinstance h v [C_IOBase] then Inr (fileiter v)
      else Inl TypeError)"

definition native_next :: "heap \<Rightarrow> native_iterator \<Rightarrow> (exn + val) \<times> heap \<times> native_iterator" where
  "native_next h it =
     (case it of
        seqiter None i \<Rightarrow> (Inl StopIteration, h, it)
      | seqiter (Some s) i \<Rightarrow>
          (case iter_items h s of
             None \<Rightarrow> (Inl TypeError, h, it)
           | Some xs \<Rightarrow>
               if i < length xs then (Inr (xs ! i), h, seqiter (Some s) (Suc i))
               else (Inl StopIteration, h, seqiter None i))
      | fileiter f \<Rightarrow>
          (case file_iterator_next h (file_iterator f) of (r, h') \<Rightarrow> (r, h', it)))"

section \<open>The dispatcher \<^verbatim>\<open>iter_\<close>\<close>

datatype iterator = SeqIt ordered_sequence_iterator | FileIt file_it | RangeIt range_iterator
  | NativeIt native_iterator

definition iter_' :: "config \<Rightarrow> heap \<Rightarrow> val \<Rightarrow> (exn + iterator) \<times> heap" where
  "iter_' cfg h ob =
     (let file_types = (if six cfg = PY2 then [C_file] else [C_IOBase]) in
      if isinstance h ob [C_dict] then
        (let (h1, keys) = alloc h (OList (dict_keys h ob))
         in (Inr (SeqIt (ordered_sequence_iterator_init keys)), h1))
      else if isinstance h ob [C_GzipFile] then (Inr (FileIt (gfile_iterator ob)), h)
      else if isinstance h ob file_types then (Inr (FileIt (file_iterator ob)), h)
      else if six cfg = PY2 \<and> isinstance h ob [C_list, C_tuple] then
        (Inr (SeqIt (ordered_sequence_iterator_init ob)), h)
      else if six cfg = PY2 \<and> isinstance h ob [C_xrange] then
        (case range_iterator_init ob of
           Inl e \<Rightarrow> (Inl e, h)
         | Inr r \<Rightarrow> (Inr (RangeIt r), h))
      else if six cfg = PY2 \<and> NUMPY_AVAILABLE cfg \<and> isinstance h ob [C_ndarray] then
        (Inr (SeqIt (ordered_sequence_iterator_init ob)), h)
      else if six cfg = PY3 \<and> isinstance h ob [C_dict_view] then
        (let (h1, items) = alloc h (OList (py_list h ob))
         in (Inr (SeqIt (ordered_sequence_iterator_init items)), h1))
      else
        (case host_iter h ob of
           Inl e \<Rightarrow> (Inl e, h)
         | Inr it \<Rightarrow> (Inr (NativeIt it), h)))"

text \<open>\<^verbatim>\<open>next(it)\<close> on whatever the dispatcher returned.\<close>

definition next_it :: "heap \<Rightarrow> iterator \<Rightarrow> (exn + val) \<times> heap \<times> iterator" where
  "next_it h it =
     (case it of
        SeqIt s \<Rightarrow> (case ordered_sequence_iterator_next h s of (r, s') \<Rightarrow> (r, h, SeqIt s'))
      | FileIt f \<Rightarrow> (case file_iterator_next h f of (r, h') \<Rightarrow> (r, h', FileIt f))
      | RangeIt g \<Rightarrow> (case range_iterator_next g of (r, g') \<Rightarrow> (r, h, RangeIt g'))
      | NativeIt n \<Rightarrow> (case native_next h n of (r, h', n') \<Rightarrow> (r, h', NativeIt n')))"

text \<open>
  A client that calls \<^verbatim>\<open>next\<close> up to \<open>n\<close> times and stops at the first exception: the
  values received, the exception that ended the run (if any), and the final heap and
  iterator.
\<close>

fun consume :: "nat \<Rightarrow> heap \<Rightarrow> iterator \<Rightarrow> val list \<times> exn option \<times> heap \<times> iterator" where
  "consume 0 h it = ([], None, h, it)"
| "consume (Suc n) h it =
     (case next_it h it of
        (Inl e, h', it') \<Rightarrow> ([], Some e, h', it')
      | (Inr v, h', it') \<Rightarrow>
          (case consume n h' it' of (vs, r, h'', it'') \<Rightarrow> (v # vs, r, h'', it'')))"

definition outputs :: "nat \<Rightarrow> heap \<Rightarrow> iterator \<Rightarrow> val list \<times> exn option" where
  "outputs n h it = (case consume n h it of (vs, r, h', it') \<Rightarrow> (vs, r))"

text \<open>
  The state a sequence iterator is in after \<open>n\<close> calls of \<^verbatim>\<open>__next__\<close>, whatever they
  returned or raised.
\<close>

fun seq_nexts :: "nat \<Rightarrow> heap \<Rightarrow> ordered_sequence_iterator \<Rightarrow> ordered_sequence_iterator" where
  "seq_nexts 0 h it = it"
| "seq_nexts (Suc n) h it = seq_nexts n h (snd (ordered_sequence_iterator_next h it))"

text \<open>
  The ordered containers the dispatcher hands to \<^verbatim>\<open>ordered_sequence_iterator\<close>: a tuple,
  or a reference to a list or an array.
\<close>

definition seq_contents :: "heap \<Rightarrow> val \<Rightarrow> val list option" where
  "seq_contents h s =
     (case s of
        TupleV xs \<Rightarrow> Some xs
      | RefV a \<Rightarrow>
          (case deref h s of Some (OList xs) \<Rightarrow> Some xs | Some (ONdarray xs) \<Rightarrow> Some xs
           | _ \<Rightarrow> None)
      | _ \<Rightarrow> None)"


definition returns_sequence_iterator :: "(exn + iterator) \<Rightarrow> bool" where
  "returns_sequence_iterator r = (case r of Inr (SeqIt _) \<Rightarrow> True | _ \<Rightarrow> False)"

section \<open>Capturing and restoring state\<close>





text \<open>
  A snapshot names the class of the wrapper and holds what its \<^verbatim>\<open>__getstate__\<close>
  returned. Restoring creates a fresh object of that class, without calling
  \<^verbatim>\<open>__init__\<close>, and calls \<^verbatim>\<open>__setstate__\<close> on it; a fresh file iterator has no handle
  yet. The host's native iterators are not wrappers and take no part in this.
\<close>

datatype file_cls = Cls_file_iterator | Cls_gfile_iterator

definition class_of :: "file_it \<Rightarrow> file_cls" where
  "class_of it = (case it of file_iterator _ \<Rightarrow> Cls_file_iterator
                  | gfile_iterator _ \<Rightarrow> Cls_gfile_iterator)"

definition new_file_it :: "file_cls \<Rightarrow> file_it" where
  "new_file_it c = (case c of Cls_file_iterator \<Rightarrow> file_iterator NoneV
                    | Cls_gfile_iterator \<Rightarrow> gfile_iterator NoneV)"

datatype state = SeqState "val \<times> nat" | FileState file_cls file_state
  | RangeState "int \<times> int \<times> int \<times> int"




text \<open>
  The resource behind a file iterator is unchanged: its handle is a file or a
  \<^verbatim>\<open>GzipFile\<close> that was opened by name, for reading; the name still resolves, to the
  content the handle reads from; and that content and the offset of the handle are
  within what the file system (for a \<^verbatim>\<open>GzipFile\<close>: the content) allows.
\<close>

definition reads_only :: "string \<Rightarrow> bool" where
  "reads_only m = (CHR ''w'' \<notin> set m \<and> CHR ''a'' \<notin> set m \<and> CHR ''x'' \<notin> set m)"

definition resource_unchanged :: "env \<Rightarrow> heap \<Rightarrow> file_it \<Rightarrow> bool" where
  "resource_unchanged e h f =
     (case deref h (file_f f) of
        Some (OFile fo) \<Rightarrow>
          files e (f_name fo) = Some (f_data fo) \<and> reads_only (f_mode fo) \<and>
          f_pos fo \<le> max_offset e \<and> length (f_data fo) \<le> max_offset e
      | Some (OGzipFile g) \<Rightarrow>
          (case files e (gz_name g) of
             Some raw \<Rightarrow>
               (case gz_data g of
                  Some d \<Rightarrow> gunzip e raw = Some d \<and> reads_only (f_mode (myfileobj g)) \<and>
                            gz_pos g \<le> length d
                | None \<Rightarrow> False)
           | None \<Rightarrow> False)
      | _ \<Rightarrow> False)"


subsection \<open>\<^verbatim>\<open>codecs_iterator\<close>\<close>

text \<open>
  The stream object (a \<^verbatim>\<open>codecs.StreamReader\<close>): the raw handle it reads from and the
  four buffer attributes. The decoder itself is an external collaborator; what the
  wrapper relies on is its class: a factory that builds a decoder from a raw handle (and
  may raise), and a \<^verbatim>\<open>readline\<close> whose result is determined by the four buffers and by
  the content and offset of the file object behind the handle; it returns a line (or
  raises), the new buffers and the offset it has read up to.
\<close>

record buffers =
  b_bytebuffer :: string
  b_charbuffer :: string
  b_linebuffer :: "string list option"
  b_errors :: string

record decoder =
  stream :: val
  bytebuffer :: string
  charbuffer :: string
  linebuffer :: "string list option"
  errors :: string

definition buffers_of :: "decoder \<Rightarrow> buffers" where
  "buffers_of d = \<lparr>b_bytebuffer = bytebuffer d, b_charbuffer = charbuffer d,
                   b_linebuffer = linebuffer d, b_errors = errors d\<rparr>"

definition with_buffers :: "decoder \<Rightarrow> buffers \<Rightarrow> decoder" where
  "with_buffers d b = d\<lparr>bytebuffer := b_bytebuffer b, charbuffer := b_charbuffer b,
                        linebuffer := b_linebuffer b, errors := b_errors b\<rparr>"

record decoder_class =
  factory :: "val \<Rightarrow> exn + decoder"
  dec_readline :: "buffers \<Rightarrow> string \<Rightarrow> nat \<Rightarrow> (exn + string) \<times> buffers \<times> nat"

record codecs_iterator =
  c_file_iterator :: file_it
  stream_generator :: decoder_class
  c_stream :: decoder

definition codecs_iterator_init ::
  "config \<Rightarrow> heap \<Rightarrow> val \<Rightarrow> decoder_class \<Rightarrow> (exn + codecs_iterator) \<times> heap" where
  "codecs_iterator_init cfg h f strm =
     (if \<not> isinstance h f [C_GzipFile, if six cfg = PY2 then C_file else C_IOBase] then
        (Inl AssertionError, h)
      else
        (case iter_' cfg h f of
           (Inl e, h1) \<Rightarrow> (Inl e, h1)
         | (Inr (FileIt fi), h1) \<Rightarrow>
             (case factory strm (file_f fi) of
                Inl e \<Rightarrow> (Inl e, h1)
              | Inr d \<Rightarrow>
                  (Inr \<lparr>c_file_iterator = fi, stream_generator = strm, c_stream = d\<rparr>, h1))
         | (Inr _, h1) \<Rightarrow> (Inl AssertionError, h1)))"

definition codecs_iterator_next ::
  "heap \<Rightarrow> codecs_iterator \<Rightarrow> (exn + val) \<times> heap \<times> codecs_iterator" where
  "codecs_iterator_next h it =
     (case deref h (stream (c_stream it)) of
        None \<Rightarrow> (Inl AttributeError, h, it)
      | Some ob \<Rightarrow>
          if \<not> is_fileobj ob then (Inl AttributeError, h, it)
          else if \<not> readable ob then (Inl IOError, h, it)
          else
            (case dec_readline (stream_generator it) (buffers_of (c_stream it))
                    (obj_data ob) (obj_pos ob) of
               (r, b', p') \<Rightarrow>
                 (let h' = store h (stream (c_stream it)) (obj_set_pos ob p');
                      it' = it\<lparr>c_stream := with_buffers (c_stream it) b'\<rparr>
                  in case r of
                       Inl e \<Rightarrow> (Inl e, h', it')
                     | Inr line \<Rightarrow>
                         if line = [] then (Inl StopIteration, h', it')
                         else (Inr (StrV line), h', it'))))"

type_synonym codecs_state =
  "file_it \<times> decoder_class \<times> string \<times> string \<times> string list option \<times> string"

definition codecs_iterator_getstate :: "codecs_iterator \<Rightarrow> codecs_state" where
  "codecs_iterator_getstate it =
     (c_file_iterator it, stream_generator it,
      bytebuffer (c_stream it), charbuffer (c_stream it),
      linebuffer (c_stream it), errors (c_stream it))"

text \<open>
  As for the file iterators, \<^verbatim>\<open>__setstate__\<close> returns the exception raised (if any)
  with the iterator as it is at that moment.
\<close>

definition codecs_iterator_setstate ::
  "codecs_iterator \<Rightarrow> codecs_state \<Rightarrow> exn option \<times> codecs_iterator" where
  "codecs_iterator_setstate it state =
     (case state of (fi, gen, bb, cb, lb, er) \<Rightarrow>
        (let it1 = it\<lparr>c_file_iterator := fi, stream_generator := gen\<rparr>
         in case factory gen (file_f fi) of
              Inl ex \<Rightarrow> (Some ex, it1)
            | Inr d \<Rightarrow>
                (let d1 = d\<lparr>bytebuffer := bb\<rparr>;
                     d2 = d1\<lparr>charbuffer := cb\<rparr>;
                     d3 = d2\<lparr>linebuffer := lb\<rparr>;
                     d4 = d3\<lparr>errors := er\<rparr>
                 in (None, it1\<lparr>c_stream := d4\<rparr>))))"

text \<open>
  The serialization envelope of the host flattens the state recursively: the inner file
  iterator inside the tuple of \<^verbatim>\<open>codecs_iterator.__getstate__\<close> is itself stored as its
  class and the result of its own \<^verbatim>\<open>__getstate__\<close>. On loading, the inner object is
  rebuilt (fresh object, then its \<^verbatim>\<open>__setstate__\<close>) while the state tuple is read, and
  only then is \<^verbatim>\<open>codecs_iterator.__setstate__\<close> called with the rebuilt tuple.
\<close>

type_synonym codecs_snapshot =
  "(file_cls \<times> file_state) \<times> decoder_class \<times> string \<times> string \<times> string list option \<times> string"

definition codecs_capture :: "heap \<Rightarrow> codecs_iterator \<Rightarrow> exn + codecs_snapshot" where
  "codecs_capture h it =
     (case codecs_iterator_getstate it of (fi, rest) \<Rightarrow>
        (case file_it_getstate h fi of
           Inl e \<Rightarrow> Inl e
         | Inr st \<Rightarrow> Inr ((class_of fi, st), rest)))"

definition codecs_restore ::
  "env \<Rightarrow> heap \<Rightarrow> codecs_iterator \<Rightarrow> codecs_snapshot \<Rightarrow> exn option \<times> heap \<times> codecs_iterator" where
  "codecs_restore e h it snap =
     (case snap of ((c, st), rest) \<Rightarrow>
        (case file_it_setstate e h (new_file_it c) st of
           (Some ex, h1, fi) \<Rightarrow> (Some ex, h1, it)
         | (None, h1, fi) \<Rightarrow>
             (case codecs_iterator_setstate it (fi, rest) of (r, it') \<Rightarrow> (r, h1, it'))))"

fun codecs_consume ::
  "nat \<Rightarrow> heap \<Rightarrow> codecs_iterator \<Rightarrow> val list \<times> exn option \<times> heap \<times> codecs_iterator" where
  "codecs_consume 0 h it = ([], None, h, it)"
| "codecs_consume (Suc n) h it =
     (case codecs_iterator_next h it of
        (Inl e, h', it') \<Rightarrow> ([], Some e, h', it')
      | (Inr v, h', it') \<Rightarrow>
          (case codecs_consume n h' it' of (vs, r, h'', it'') \<Rightarrow> (v # vs, r, h'', it'')))"

definition codecs_outputs :: "nat \<Rightarrow> heap \<Rightarrow> codecs_iterator \<Rightarrow> val list \<times> exn option" where
  "codecs_outputs n h it = (case codecs_consume n h it of (vs, r, h', it') \<Rightarrow> (vs, r))"

text \<open>
  What is asked of the external decoder class where a property depends on it: its
  factory builds a decoder that reads from the handle it is given; once its
  \<^verbatim>\<open>readline\<close> has reported the end of the stream it keeps reporting it; and its
  \<^verbatim>\<open>readline\<close> reads forward, so that it leaves the handle no further than the end of
  the content (or where it found it, if that was beyond the end).
\<close>

definition wraps_handle :: "decoder_class \<Rightarrow> bool" where
  "wraps_handle c = (\<forall>r. case factory c r of Inr d \<Rightarrow> stream d = r | Inl ex \<Rightarrow> False)"

definition at_end :: "(exn + string) \<Rightarrow> bool" where
  "at_end r = (case r of Inr l \<Rightarrow> l = [] | Inl ex \<Rightarrow> ex = StopIteration)"

definition eof_stable :: "decoder_class \<Rightarrow> bool" where
  "eof_stable c =
     (\<forall>b d p. case dec_readline c b d p of
                 (r, b', p') \<Rightarrow>
                   at_end r \<longrightarrow>
                   (case dec_readline c b' d p' of
                      (r', b'', p'') \<Rightarrow> at_end r' \<and> b'' = b' \<and> p'' = p'))"

definition reads_within :: "decoder_class \<Rightarrow> bool" where
  "reads_within c =
     (\<forall>b d p. case dec_readline c b d p of (r, b', p') \<Rightarrow> p' \<le> max p (length d))"

text \<open>
  Two decoder classes to run the wrapper on. The first reads everything that is left of
  the stream into its character buffer and serves lines from there, so that the offset
  of the handle runs ahead of the lines delivered. The factory of the second always
  raises.
\<close>

definition readahead_reader :: decoder_class where
  "readahead_reader =
     \<lparr>factory = (\<lambda>f. Inr \<lparr>stream = f, bytebuffer = [], charbuffer = [], linebuffer = None,
                           errors = ''strict''\<rparr>),
      dec_readline = (\<lambda>b d p.
        (let buf = b_charbuffer b @ drop p d; l = read_line buf 0
         in (Inr l, b\<lparr>b_charbuffer := drop (length l) buf\<rparr>, max p (length d))))\<rparr>"

definition failing_reader :: decoder_class where
  "failing_reader =
     \<lparr>factory = (\<lambda>f. Inl TypeError),
      dec_readline = dec_readline readahead_reader\<rparr>"

text \<open>
  The lines \<open>n\<close> successive \<^verbatim>\<open>readline()\<close> calls of a decoder deliver, from its buffers
  \<open>b\<close> and content \<open>d\<close> at offset \<open>p\<close>, stopping at the first exception or empty line.
\<close>

fun dec_lines ::
  "decoder_class \<Rightarrow> nat \<Rightarrow> buffers \<Rightarrow> string \<Rightarrow> nat \<Rightarrow> val list \<times> exn option \<times> buffers \<times> nat" where
  "dec_lines c 0 b d p = ([], None, b, p)"
| "dec_lines c (Suc n) b d p =
     (case dec_readline c b d p of
        (Inl e, b', p') \<Rightarrow> ([], Some e, b', p')
      | (Inr l, b', p') \<Rightarrow>
          if l = [] then ([], Some StopIteration, b', p')
          else (case dec_lines c n b' d p' of (vs, r, b'', p'') \<Rightarrow> (StrV l # vs, r, b'', p'')))"

text \<open>
  A small world to run the code in: a text file of two lines, the same two lines behind
  a compressed file (the stand-in for the decompression routine strips a three-byte
  header and refuses data without it), the two open file objects, and an in-memory
  stream of the same two lines.
\<close>

definition sample_env :: env where
  "sample_env =
     \<lparr>files = (\<lambda>n. if n = ''f.txt'' then Some ''line1\<newline>line2\<newline>''
                    else if n = ''f.gz'' then Some ''GZ:line1\<newline>line2\<newline>''
                    else None),
      gunzip = (\<lambda>raw. if take 3 raw = ''GZ:'' then Some (drop 3 raw) else None),
      max_offset = 2 ^ 62\<rparr>"

definition sample_file :: fileobj where
  "sample_file = \<lparr>f_name = ''f.txt'', f_mode = ''r'', f_pos = 0,
                   f_data = ''line1\<newline>line2\<newline>''\<rparr>"

definition sample_gzip :: gzfile where
  "sample_gzip =
     \<lparr>gz_name = ''f.gz'', gz_mode = IntV 1, gz_pos = 0,
      gz_data = Some ''line1\<newline>line2\<newline>'',
      myfileobj = \<lparr>f_name = ''f.gz'', f_mode = ''rb'', f_pos = 0,
                    f_data = ''GZ:line1\<newline>line2\<newline>''\<rparr>\<rparr>"

definition sample_stringio :: memstream where
  "sample_stringio = \<lparr>m_pos = 0, m_data = ''line1\<newline>line2\<newline>''\<rparr>"

section \<open>Properties\<close>


subsection \<open>The heap\<close>

lemma deref_store_other:
  "deref h d = Some ob \<Longrightarrow> deref (store (h @ [ob']) d ob'') (RefV (length h)) = Some ob'"
  by (cases d) (auto simp: deref_def store_def nth_list_update nth_append split: if_splits)

lemma deref_store_same:
  "deref h x = Some ob \<Longrightarrow> deref (store h x ob') x = Some ob'"
  by (cases x) (auto simp: deref_def store_def split: if_splits)

lemma store_same_id: "deref h r = Some ob \<Longrightarrow> store h r ob = h"
  by (cases r) (auto simp: deref_def store_def split: if_splits)

lemma deref_alloc_new: "deref (h @ [ob]) (RefV (length h)) = Some ob"
  by (simp add: deref_def)

lemma store_alloc_new: "store (h @ [ob]) (RefV (length h)) ob' = h @ [ob']"
  by (simp add: store_def)

lemma store_store: "store (store h r a) r b = store h r b"
  by (cases r) (simp_all add: store_def)


subsection \<open>Sequence iterators\<close>

lemma seq_contents_len: "seq_contents h s = Some xs \<Longrightarrow> py_len h s = Inr (length xs)"
  by (auto simp: seq_contents_def py_len_def iter_items_def
           split: val.splits option.splits obj.splits)

lemma seq_contents_getitem:
  "seq_contents h s = Some xs \<Longrightarrow> i < length xs \<Longrightarrow> py_getitem h s i = Inr (xs ! i)"
  by (auto simp: seq_contents_def py_getitem_def iter_items_def deref_def
           split: val.splits option.splits obj.splits if_splits)

lemma seq_next_eq:
  "seq_contents h (sequence it) = Some xs \<Longrightarrow>
   ordered_sequence_iterator_next h it =
     (if position it < length xs then (Inr (xs ! position it), it\<lparr>position := position it + 1\<rparr>)
      else (Inl StopIteration, it))"
  by (simp add: ordered_sequence_iterator_next_def seq_contents_len seq_contents_getitem)

lemma seq_nexts_inv:
  "seq_contents h (sequence it) = Some xs \<Longrightarrow> position it \<le> length xs \<Longrightarrow>
   sequence (seq_nexts n h it) = sequence it \<and>
   position (seq_nexts n h it) = min (position it + n) (length xs)"
proof (induction n arbitrary: it)
  case 0
  then show ?case by simp
next
  case (Suc n)
  show ?case
  proof (cases "position it < length xs")
    case True
    with Suc.prems Suc.IH[of "it\<lparr>position := position it + 1\<rparr>"] show ?thesis
      by (simp add: seq_next_eq)
  next
    case False
    with Suc.prems Suc.IH[of it] show ?thesis
      by (simp add: seq_next_eq)
  qed
qed

lemma consume_seq:
  "seq_contents h (sequence it) = Some xs \<Longrightarrow> position it \<le> length xs \<Longrightarrow>
   consume n h (SeqIt it) =
     (take n (drop (position it) xs),
      (if length xs < position it + n then Some StopIteration else None),
      h, SeqIt (it\<lparr>position := min (position it + n) (length xs)\<rparr>))"
proof (induction n arbitrary: it)
  case 0
  then show ?case by (simp add: min_def)
next
  case (Suc n)
  show ?case
  proof (cases "position it < length xs")
    case True
    have "drop (position it) xs = xs ! position it # drop (Suc (position it)) xs"
      using True by (simp add: Cons_nth_drop_Suc)
    with True Suc.prems Suc.IH[of "it\<lparr>position := position it + 1\<rparr>"] show ?thesis
      by (simp add: next_it_def seq_next_eq)
  next
    case False
    with Suc.prems show ?thesis
      by (simp add: next_it_def seq_next_eq min_def)
  qed
qed

lemma outputs_seq:
  "seq_contents h (sequence it) = Some xs \<Longrightarrow> position it \<le> length xs \<Longrightarrow>
   outputs n h (SeqIt it) =
     (take n (drop (position it) xs),
      (if length xs < position it + n then Some StopIteration else None))"
  by (simp add: outputs_def consume_seq)

lemma seq_contents_OList: "deref h x = Some (OList xs) \<Longrightarrow> seq_contents h x = Some xs"
  by (cases x) (simp_all add: seq_contents_def deref_def)

lemma iter_items_OList: "deref h x = Some (OList xs) \<Longrightarrow> iter_items h x = Some xs"
  by (cases x) (simp_all add: iter_items_def deref_def)

text \<open>
  Claim C8. Let the iterator be constructed over an ordered container with elements
  \<open>xs\<close>, and let any number \<open>n\<close> of \<^verbatim>\<open>__next__\<close> calls follow. Then the position is at
  most the length of \<open>xs\<close> (it is \<open>min n (length xs)\<close>), the iterator still holds the same
  reference, \<^verbatim>\<open>__next__\<close> returns the element at the position and increments the position
  by one when the position is below the length, and signals exhaustion, leaving the
  iterator as it is, exactly when the position equals the length. A call changes
  nothing in the heap: the container is neither copied nor mutated.
\<close>

theorem sequence_iterator_invariant:
  assumes "seq_contents h s = Some xs"
  shows "let it = seq_nexts n h (ordered_sequence_iterator_init s) in
           position it \<le> length xs \<and>
           position it = min n (length xs) \<and>
           sequence it = s \<and>
           ordered_sequence_iterator_next h it =
             (if position it < length xs
              then (Inr (xs ! position it), it\<lparr>position := position it + 1\<rparr>)
              else (Inl StopIteration, it)) \<and>
           ((fst (ordered_sequence_iterator_next h it) = Inl StopIteration) =
              (position it = length xs)) \<and>
           fst (snd (next_it h (SeqIt it))) = h"
proof -
  define it where "it = seq_nexts n h (ordered_sequence_iterator_init s)"
  have inv: "sequence it = s" "position it = min n (length xs)"
    using seq_nexts_inv[of h "ordered_sequence_iterator_init s" xs n] assms
    by (simp_all add: it_def ordered_sequence_iterator_init_def)
  have c: "seq_contents h (sequence it) = Some xs"
    using inv assms by simp
  have nx: "ordered_sequence_iterator_next h it =
             (if position it < length xs
              then (Inr (xs ! position it), it\<lparr>position := position it + 1\<rparr>)
              else (Inl StopIteration, it))"
    by (rule seq_next_eq[OF c])
  have ex: "(fst (ordered_sequence_iterator_next h it) = Inl StopIteration) =
              (position it = length xs)"
    using inv by (auto simp: nx)
  have hp: "fst (snd (next_it h (SeqIt it))) = h"
    by (simp add: next_it_def split: prod.splits)
  show ?thesis
    unfolding Let_def it_def[symmetric]
    using inv nx ex hp by simp
qed

theorem sequence_iterator_invariant_witness:
  "seq_contents [OList [IntV 10, IntV 20, IntV 30]] (RefV 0) = Some [IntV 10, IntV 20, IntV 30] \<and>
   position (seq_nexts 5 [OList [IntV 10, IntV 20, IntV 30]]
               (ordered_sequence_iterator_init (RefV 0))) = 3 \<and>
   sequence (seq_nexts 2 [OList [IntV 10, IntV 20, IntV 30]]
               (ordered_sequence_iterator_init (RefV 0))) = RefV 0"
proof -
  have c: "seq_contents [OList [IntV 10, IntV 20, IntV 30]] (RefV 0)
             = Some [IntV 10, IntV 20, IntV 30]"
    by (simp add: seq_contents_def deref_def)
  from sequence_iterator_invariant[OF c, of 5] sequence_iterator_invariant[OF c, of 2] c
  show ?thesis
    by (simp add: Let_def)
qed


subsection \<open>Dispatch of lists and dictionaries\<close>

lemma consume_native_seq:
  "iter_items h s = Some xs \<Longrightarrow> i \<le> length xs \<Longrightarrow>
   consume n h (NativeIt (seqiter (Some s) i)) =
     (take n (drop i xs),
      (if length xs < i + n then Some StopIteration else None),
      h,
      NativeIt (if length xs < i + n then seqiter None (length xs) else seqiter (Some s) (i + n)))"
proof (induction n arbitrary: i)
  case 0
  then show ?case by simp
next
  case (Suc n)
  show ?case
  proof (cases "i < length xs")
    case True
    have "drop i xs = xs ! i # drop (Suc i) xs"
      using True by (simp add: Cons_nth_drop_Suc)
    with True Suc.prems Suc.IH[of "Suc i"] show ?thesis
      by (simp add: next_it_def native_next_def)
  next
    case False
    with Suc.prems show ?thesis
      by (simp add: next_it_def native_next_def)
  qed
qed

lemma outputs_native_seq:
  "iter_items h s = Some xs \<Longrightarrow> i \<le> length xs \<Longrightarrow>
   outputs n h (NativeIt (seqiter (Some s) i)) =
     (take n (drop i xs), (if length xs < i + n then Some StopIteration else None))"
  by (simp add: outputs_def consume_native_seq)

lemma iter_list_PY2:
  "deref h x = Some (OList xs) \<Longrightarrow> six cfg = PY2 \<Longrightarrow>
   iter_' cfg h x = (Inr (SeqIt \<lparr>sequence = x, position = 0\<rparr>), h)"
  by (simp add: iter_'_def isinstance_def instance_of_def ordered_sequence_iterator_init_def)

lemma iter_list_PY3:
  "deref h x = Some (OList xs) \<Longrightarrow> six cfg = PY3 \<Longrightarrow>
   iter_' cfg h x = (Inr (NativeIt (seqiter (Some x) 0)), h)"
  by (simp add: iter_'_def isinstance_def instance_of_def host_iter_def iter_items_OList
        is_fileobj_def)

lemma iter_dict:
  "deref h d = Some (ODict kvs) \<Longrightarrow>
   iter_' cfg h d = (Inr (SeqIt \<lparr>sequence = RefV (length h), position = 0\<rparr>),
                     h @ [OList (map fst kvs)])"
  by (simp add: iter_'_def isinstance_def instance_of_def ordered_sequence_iterator_init_def
        alloc_def dict_keys_def)

text \<open>
  Claim C3 as stated says that the dispatcher returns a sequence iterator for the list
  \<^verbatim>\<open>[10, 20, 30]\<close>. The two branches for lists and tuples are under \<^verbatim>\<open>if six.PY2\<close>: on
  Python 3 the list reaches the last line of \<^verbatim>\<open>iter_\<close> and the result is the host's
  native list iterator.
\<close>

theorem list_dispatch_py3_counterexample:
  "\<not> returns_sequence_iterator
        (fst (iter_' \<lparr>six = PY3, NUMPY_AVAILABLE = True\<rparr>
                [OList [IntV 10, IntV 20, IntV 30]] (RefV 0)))"
  by (simp add: iter_'_def isinstance_def instance_of_def host_iter_def iter_items_def
        deref_def returns_sequence_iterator_def is_fileobj_def)

text \<open>
  Claim C3, amended. For the input list \<^verbatim>\<open>[10, 20, 30]\<close> the dispatcher returns, without
  touching the heap, a sequence iterator over that very list on Python 2 and the host's
  native list iterator on Python 3. Either way the iterator yields 10, then 20, then 30,
  and the fourth call of \<^verbatim>\<open>next\<close> signals exhaustion.
\<close>

theorem list_dispatch:
  assumes "deref h x = Some (OList [IntV 10, IntV 20, IntV 30])"
  shows "let it = (if six cfg = PY2 then SeqIt \<lparr>sequence = x, position = 0\<rparr>
                   else NativeIt (seqiter (Some x) 0)) in
           iter_' cfg h x = (Inr it, h) \<and>
           returns_sequence_iterator (fst (iter_' cfg h x)) = (six cfg = PY2) \<and>
           outputs 3 h it = ([IntV 10, IntV 20, IntV 30], None) \<and>
           outputs 4 h it = ([IntV 10, IntV 20, IntV 30], Some StopIteration)"
proof (cases "six cfg")
  case PY2
  have c: "seq_contents h x = Some [IntV 10, IntV 20, IntV 30]"
    using assms by (rule seq_contents_OList)
  show ?thesis
    using PY2 iter_list_PY2[OF assms PY2] c
    by (simp add: Let_def outputs_seq returns_sequence_iterator_def)
next
  case PY3
  have c: "iter_items h x = Some [IntV 10, IntV 20, IntV 30]"
    using assms by (rule iter_items_OList)
  show ?thesis
    using PY3 iter_list_PY3[OF assms PY3] c
    by (simp add: Let_def outputs_native_seq returns_sequence_iterator_def)
qed

theorem list_dispatch_witness:
  "deref [OList [IntV 10, IntV 20, IntV 30]] (RefV 0) = Some (OList [IntV 10, IntV 20, IntV 30]) \<and>
   iter_' \<lparr>six = PY2, NUMPY_AVAILABLE = False\<rparr> [OList [IntV 10, IntV 20, IntV 30]] (RefV 0)
     = (Inr (SeqIt \<lparr>sequence = RefV 0, position = 0\<rparr>), [OList [IntV 10, IntV 20, IntV 30]]) \<and>
   outputs 4 [OList [IntV 10, IntV 20, IntV 30]] (SeqIt \<lparr>sequence = RefV 0, position = 0\<rparr>)
     = ([IntV 10, IntV 20, IntV 30], Some StopIteration) \<and>
   outputs 4 [OList [IntV 10, IntV 20, IntV 30]] (NativeIt (seqiter (Some (RefV 0)) 0))
     = ([IntV 10, IntV 20, IntV 30], Some StopIteration)"
proof -
  have d: "deref [OList [IntV 10, IntV 20, IntV 30]] (RefV 0)
             = Some (OList [IntV 10, IntV 20, IntV 30])"
    by (simp add: deref_def)
  from list_dispatch[OF d, of "\<lparr>six = PY2, NUMPY_AVAILABLE = False\<rparr>"]
       list_dispatch[OF d, of "\<lparr>six = PY3, NUMPY_AVAILABLE = False\<rparr>"] d
  show ?thesis
    by (simp add: Let_def)
qed

text \<open>
  Claim C10. For a dictionary the dispatcher allocates a new list holding the keys, in
  the dictionary's order, and returns a sequence iterator over that new list, which is
  not the dictionary. Whatever the dictionary is replaced by afterwards (keys added or
  removed), the iterator yields exactly the keys the dictionary had at dispatch, and
  then signals exhaustion. A list, by contrast, is held by reference (on Python 2,
  where the dispatcher wraps lists): the iterator is over the input itself, and yields
  what the list holds after it has been changed.
\<close>

theorem dict_keys_materialized:
  assumes "deref h d = Some (ODict kvs)"
  shows "iter_' cfg h d = (Inr (SeqIt \<lparr>sequence = RefV (length h), position = 0\<rparr>),
                           h @ [OList (map fst kvs)]) \<and>
         RefV (length h) \<noteq> d \<and>
         (\<forall>kvs' n. outputs n (store (h @ [OList (map fst kvs)]) d (ODict kvs'))
                      (SeqIt \<lparr>sequence = RefV (length h), position = 0\<rparr>)
                    = (take n (map fst kvs),
                       if length kvs < n then Some StopIteration else None)) \<and>
         (\<forall>x xs ys n. six cfg = PY2 \<longrightarrow> deref h x = Some (OList xs) \<longrightarrow>
              iter_' cfg h x = (Inr (SeqIt \<lparr>sequence = x, position = 0\<rparr>), h) \<and>
              outputs n (store h x (OList ys)) (SeqIt \<lparr>sequence = x, position = 0\<rparr>)
                = (take n ys, if length ys < n then Some StopIteration else None))"
proof -
  have a: "iter_' cfg h d = (Inr (SeqIt \<lparr>sequence = RefV (length h), position = 0\<rparr>),
                           h @ [OList (map fst kvs)])"
    by (rule iter_dict[OF assms])
  have b: "RefV (length h) \<noteq> d"
    using assms by (auto simp: deref_def)
  have c: "outputs n (store (h @ [OList (map fst kvs)]) d (ODict kvs'))
                      (SeqIt \<lparr>sequence = RefV (length h), position = 0\<rparr>)
                    = (take n (map fst kvs),
                       if length kvs < n then Some StopIteration else None)" for kvs' n
  proof -
    have "seq_contents (store (h @ [OList (map fst kvs)]) d (ODict kvs')) (RefV (length h))
            = Some (map fst kvs)"
      by (rule seq_contents_OList) (rule deref_store_other[OF assms])
    then show ?thesis
      by (simp add: outputs_seq)
  qed
  have e: "iter_' cfg h x = (Inr (SeqIt \<lparr>sequence = x, position = 0\<rparr>), h) \<and>
              outputs n (store h x (OList ys)) (SeqIt \<lparr>sequence = x, position = 0\<rparr>)
                = (take n ys, if length ys < n then Some StopIteration else None)"
    if "six cfg = PY2" "deref h x = Some (OList xs)" for x xs ys n
  proof -
    have "seq_contents (store h x (OList ys)) x = Some ys"
      by (rule seq_contents_OList) (rule deref_store_same[OF that(2)])
    then show ?thesis
      using iter_list_PY2[OF that(2) that(1)] by (simp add: outputs_seq)
  qed
  from a b c e show ?thesis by blast
qed

theorem dict_keys_materialized_witness:
  "deref [OList [IntV 1], ODict [(StrV ''a'', IntV 1), (StrV ''b'', IntV 2)]] (RefV 1)
     = Some (ODict [(StrV ''a'', IntV 1), (StrV ''b'', IntV 2)]) \<and>
   iter_' \<lparr>six = PY2, NUMPY_AVAILABLE = False\<rparr>
       [OList [IntV 1], ODict [(StrV ''a'', IntV 1), (StrV ''b'', IntV 2)]] (RefV 1)
     = (Inr (SeqIt \<lparr>sequence = RefV 2, position = 0\<rparr>),
        [OList [IntV 1], ODict [(StrV ''a'', IntV 1), (StrV ''b'', IntV 2)],
         OList [StrV ''a'', StrV ''b'']]) \<and>
   outputs 3 (store [OList [IntV 1], ODict [(StrV ''a'', IntV 1), (StrV ''b'', IntV 2)],
                     OList [StrV ''a'', StrV ''b'']]
                 (RefV 1) (ODict [(StrV ''c'', IntV 3)]))
             (SeqIt \<lparr>sequence = RefV 2, position = 0\<rparr>)
     = ([StrV ''a'', StrV ''b''], Some StopIteration) \<and>
   deref [OList [IntV 1], ODict [(StrV ''a'', IntV 1), (StrV ''b'', IntV 2)]] (RefV 0)
     = Some (OList [IntV 1]) \<and>
   outputs 3 (store [OList [IntV 1], ODict [(StrV ''a'', IntV 1), (StrV ''b'', IntV 2)]]
                 (RefV 0) (OList [IntV 1, IntV 2]))
             (SeqIt \<lparr>sequence = RefV 0, position = 0\<rparr>)
     = ([IntV 1, IntV 2], Some StopIteration)"
proof -
  let ?h = "[OList [IntV 1], ODict [(StrV ''a'', IntV 1), (StrV ''b'', IntV 2)]]"
  have d: "deref ?h (RefV 1) = Some (ODict [(StrV ''a'', IntV 1), (StrV ''b'', IntV 2)])"
    by (simp add: deref_def)
  have l: "deref ?h (RefV 0) = Some (OList [IntV 1])"
    by (simp add: deref_def)
  have two: "Suc (Suc 0) = 2"
    by simp
  from dict_keys_materialized[OF d, of "\<lparr>six = PY2, NUMPY_AVAILABLE = False\<rparr>"] d l
  show ?thesis
    by (simp add: two)
qed


subsection \<open>State of the file iterators\<close>






subsection \<open>Reading a file to its end\<close>

lemma readable_fileobj:
  "readable ob \<Longrightarrow> is_fileobj ob"
  by (cases ob) (simp_all add: is_fileobj_def readable_def)


lemma readline_unreadable:
  "is_fileobj ob \<Longrightarrow> \<not> readable ob \<Longrightarrow> readline ob = Inl IOError"
  by (cases ob) (auto simp add: is_fileobj_def readable_def readline_def)

lemma obj_set_pos_simps [simp]:
  "is_fileobj (obj_set_pos ob p) = is_fileobj ob"
  "readable (obj_set_pos ob p) = readable ob"
  "obj_data (obj_set_pos ob p) = obj_data ob"
  "is_fileobj ob \<Longrightarrow> obj_pos (obj_set_pos ob p) = p"
  "readable ob \<Longrightarrow> obj_pos (obj_set_pos ob p) = p"
  "obj_set_pos (obj_set_pos ob p) q = obj_set_pos ob q"
  "obj_set_pos ob (obj_pos ob) = ob"
  by (cases ob; simp add: is_fileobj_def readable_def obj_data_def obj_pos_def obj_set_pos_def)+




lemma consume_append:
  "consume k h it = (vs, None, h2, it2) \<Longrightarrow>
   consume (k + n) h it =
     (case consume n h2 it2 of (ws, r, h', it') \<Rightarrow> (vs @ ws, r, h', it'))"
proof (induction k arbitrary: h it vs)
  case 0
  then show ?case by (simp split: prod.splits)
next
  case (Suc k)
  then show ?case
    by (auto split: prod.splits sum.splits)
qed

lemma consume_length:
  "consume k h it = (vs, None, h2, it2) \<Longrightarrow> length vs = k"
proof (induction k arbitrary: h it vs)
  case 0
  then show ?case by simp
next
  case (Suc k)
  then show ?case
    by (auto split: prod.splits sum.splits)
qed

lemma outputs_append:
  "consume k h it = (vs, None, h2, it2) \<Longrightarrow>
   outputs (k + n) h it = (vs @ fst (outputs n h2 it2), snd (outputs n h2 it2))"
  by (simp add: outputs_def consume_append split: prod.splits)


subsection \<open>Exhaustion\<close>

lemma py_len_not_stop: "py_len h v \<noteq> Inl StopIteration"
  by (simp add: py_len_def split: option.splits)

lemma py_getitem_not_stop: "py_getitem h v i \<noteq> Inl StopIteration"
  by (simp add: py_getitem_def split: option.splits obj.splits)

lemma seq_next_stop:
  "ordered_sequence_iterator_next h s = (Inl StopIteration, s') \<Longrightarrow>
   s' = s \<and> ordered_sequence_iterator_next h s = (Inl StopIteration, s)"
  using py_len_not_stop[of h "sequence s"] py_getitem_not_stop[of h "sequence s" "position s"]
  by (auto simp: ordered_sequence_iterator_next_def split: sum.splits if_splits)

lemma readline_empty_same: "readline ob = Inr ([], ob') \<Longrightarrow> ob' = ob"
  by (cases ob) (auto simp: readline_def Let_def split: option.splits)

lemma readline_not_stop: "readline ob \<noteq> Inl StopIteration"
  by (cases ob) (auto simp: readline_def Let_def split: option.splits)

lemma file_next_stop:
  "file_iterator_next h f = (Inl StopIteration, h') \<Longrightarrow>
   h' = h \<and> file_iterator_next h f = (Inl StopIteration, h)"
proof -
  assume a: "file_iterator_next h f = (Inl StopIteration, h')"
  then obtain ob where d: "deref h (file_f f) = Some ob"
    by (auto simp: file_iterator_next_def split: option.splits)
  from a d obtain ob' where r: "readline ob = Inr ([], ob')"
    using readline_not_stop[of ob]
    by (auto simp: file_iterator_next_def Let_def split: sum.splits if_splits)
  then have "ob' = ob" by (rule readline_empty_same)
  with a d r have "h' = h"
    by (simp add: file_iterator_next_def store_same_id)
  with a show ?thesis by simp
qed

lemma range_next_stop:
  "range_iterator_next g = (Inl StopIteration, g') \<Longrightarrow>
   g' = g \<and> range_iterator_next g = (Inl StopIteration, g)"
  by (auto simp: range_iterator_next_def split: if_splits)

lemma native_next_stop:
  "native_next h n = (Inl StopIteration, h', n') \<Longrightarrow>
   h' = h \<and> native_next h n' = (Inl StopIteration, h, n')"
proof (cases n)
  case (seqiter s i)
  assume a: "native_next h n = (Inl StopIteration, h', n')"
  show ?thesis
  proof (cases s)
    case None
    with a seqiter show ?thesis by (auto simp: native_next_def)
  next
    case (Some v)
    with a seqiter show ?thesis
      by (auto simp: native_next_def split: option.splits if_splits)
  qed
next
  case (fileiter f)
  assume a: "native_next h n = (Inl StopIteration, h', n')"
  with fileiter have "file_iterator_next h (file_iterator f) = (Inl StopIteration, h')" "n' = n"
    by (auto simp: native_next_def split: prod.splits)
  with file_next_stop[of h "file_iterator f" h'] fileiter show ?thesis
    by (simp add: native_next_def)
qed

lemma next_it_stop:
  assumes "next_it h it = (Inl StopIteration, h', it')"
  shows "h' = h \<and> next_it h it' = (Inl StopIteration, h, it')"
proof (cases it)
  case (SeqIt s)
  with assms seq_next_stop[of h s] show ?thesis
    by (auto simp: next_it_def split: prod.splits)
next
  case (FileIt f)
  with assms file_next_stop[of h f] show ?thesis
    by (auto simp: next_it_def split: prod.splits)
next
  case (RangeIt g)
  with assms range_next_stop[of g] show ?thesis
    by (auto simp: next_it_def split: prod.splits)
next
  case (NativeIt n)
  with assms native_next_stop[of h n] show ?thesis
    by (auto simp: next_it_def split: prod.splits)
qed

lemma buffers_of_with_buffers [simp]: "buffers_of (with_buffers d b) = b"
  by (simp add: buffers_of_def with_buffers_def)

lemma with_buffers_twice [simp]: "with_buffers (with_buffers d b) b' = with_buffers d b'"
  by (simp add: with_buffers_def)

lemma stream_with_buffers [simp]: "stream (with_buffers d b) = stream d"
  by (simp add: with_buffers_def)

lemma with_buffers_buffers_of [simp]: "with_buffers d (buffers_of d) = d"
  by (simp add: with_buffers_def buffers_of_def)

lemma codecs_update_same [simp]: "it\<lparr>c_stream := c_stream it\<rparr> = (it :: codecs_iterator)"
  by simp

lemma codecs_next_stop:
  assumes "codecs_iterator_next h it = (Inl StopIteration, h', it')"
    and "eof_stable (stream_generator it)"
  shows "codecs_iterator_next h' it' = (Inl StopIteration, h', it')"
proof -
  let ?s = "stream (c_stream it)"
  let ?c = "stream_generator it"
  from assms(1) obtain ob where d: "deref h ?s = Some ob" and f: "is_fileobj ob"
    and g: "readable ob"
    by (auto simp: codecs_iterator_next_def split: option.splits if_splits)
  obtain r b' p' where
    rl: "dec_readline ?c (buffers_of (c_stream it)) (obj_data ob) (obj_pos ob) = (r, b', p')"
    by (cases "dec_readline ?c (buffers_of (c_stream it)) (obj_data ob) (obj_pos ob)") auto
  from assms(1) d f g rl
  have res: "h' = store h ?s (obj_set_pos ob p')"
            "it' = it\<lparr>c_stream := with_buffers (c_stream it) b'\<rparr>"
    and r: "at_end r"
    by (auto simp: codecs_iterator_next_def Let_def at_end_def split: sum.splits if_splits)
  obtain r' b'' p'' where rl': "dec_readline ?c b' (obj_data ob) p' = (r', b'', p'')"
    by (cases "dec_readline ?c b' (obj_data ob) p'") auto
  from assms(2) rl r rl' have st: "at_end r'" "b'' = b'" "p'' = p'"
    unfolding eof_stable_def
    by (metis (mono_tags, lifting) case_prod_conv)+
  have d': "deref h' ?s = Some (obj_set_pos ob p')"
    using res(1) deref_store_same[OF d] by simp
  have same: "store h' ?s (obj_set_pos ob p') = h'"
    by (rule store_same_id[OF d'])
  show ?thesis
    using d' f g rl' st
    by (cases r') (simp_all add: codecs_iterator_next_def res(2) Let_def same at_end_def)
qed

lemma eof_stable_readahead: "eof_stable readahead_reader"
  by (simp add: eof_stable_def readahead_reader_def at_end_def Let_def)

text \<open>
  Claim C9. If a call of \<^verbatim>\<open>next\<close> on an iterator the dispatcher can return (sequence,
  file, compressed file, range or native) signals exhaustion, then the heap is as it was
  before the call, the next call on the resulting iterator signals exhaustion again and
  changes neither the heap nor the iterator, and so does every further call: no value is
  returned and no other exception raised. The calls follow one another with nothing
  else writing to the container or the file in between. The same holds for the
  decoded-stream iterator, whose \<^verbatim>\<open>__next__\<close> delegates to the external decoder,
  provided that decoder keeps reporting the end of the stream once it has reported it.
\<close>

theorem exhaustion_deterministic:
  "(next_it h it = (Inl StopIteration, h', it') \<longrightarrow>
      h' = h \<and> next_it h' it' = (Inl StopIteration, h', it') \<and>
      (\<forall>n. consume (Suc n) h' it' = ([], Some StopIteration, h', it'))) \<and>
   (codecs_iterator_next h c = (Inl StopIteration, h', c') \<and> eof_stable (stream_generator c) \<longrightarrow>
      codecs_iterator_next h' c' = (Inl StopIteration, h', c') \<and>
      (\<forall>n. codecs_consume (Suc n) h' c' = ([], Some StopIteration, h', c')))"
  using next_it_stop[of h it h' it'] codecs_next_stop[of h c h' c']
  by auto

theorem exhaustion_deterministic_witness:
  "next_it [OFile (sample_file\<lparr>f_pos := 12\<rparr>)] (FileIt (file_iterator (RefV 0)))
     = (Inl StopIteration, [OFile (sample_file\<lparr>f_pos := 12\<rparr>)], FileIt (file_iterator (RefV 0))) \<and>
   consume (Suc 3) [OFile (sample_file\<lparr>f_pos := 12\<rparr>)] (FileIt (file_iterator (RefV 0)))
     = ([], Some StopIteration, [OFile (sample_file\<lparr>f_pos := 12\<rparr>)],
        FileIt (file_iterator (RefV 0))) \<and>
   next_it [OList [IntV 7]] (NativeIt (seqiter (Some (RefV 0)) 1))
     = (Inl StopIteration, [OList [IntV 7]], NativeIt (seqiter None 1)) \<and>
   next_it [OList [IntV 7]] (NativeIt (seqiter None 1))
     = (Inl StopIteration, [OList [IntV 7]], NativeIt (seqiter None 1)) \<and>
   eof_stable readahead_reader \<and>
   codecs_iterator_next [OFile (sample_file\<lparr>f_pos := 12\<rparr>)]
       \<lparr>c_file_iterator = file_iterator (RefV 0), stream_generator = readahead_reader,
        c_stream = \<lparr>stream = RefV 0, bytebuffer = [], charbuffer = [], linebuffer = None,
                    errors = ''strict''\<rparr>\<rparr>
     = (Inl StopIteration, [OFile (sample_file\<lparr>f_pos := 12\<rparr>)],
        \<lparr>c_file_iterator = file_iterator (RefV 0), stream_generator = readahead_reader,
         c_stream = \<lparr>stream = RefV 0, bytebuffer = [], charbuffer = [], linebuffer = None,
                     errors = ''strict''\<rparr>\<rparr>) \<and>
   codecs_consume (Suc 3) [OFile (sample_file\<lparr>f_pos := 12\<rparr>)]
       \<lparr>c_file_iterator = file_iterator (RefV 0), stream_generator = readahead_reader,
        c_stream = \<lparr>stream = RefV 0, bytebuffer = [], charbuffer = [], linebuffer = None,
                    errors = ''strict''\<rparr>\<rparr>
     = ([], Some StopIteration, [OFile (sample_file\<lparr>f_pos := 12\<rparr>)],
        \<lparr>c_file_iterator = file_iterator (RefV 0), stream_generator = readahead_reader,
         c_stream = \<lparr>stream = RefV 0, bytebuffer = [], charbuffer = [], linebuffer = None,
                     errors = ''strict''\<rparr>\<rparr>)"
proof -
  let ?h = "[OFile (sample_file\<lparr>f_pos := 12\<rparr>)]"
  let ?c = "\<lparr>c_file_iterator = file_iterator (RefV 0), stream_generator = readahead_reader,
        c_stream = \<lparr>stream = RefV 0, bytebuffer = [], charbuffer = [], linebuffer = None,
                    errors = ''strict''\<rparr>\<rparr>"
  have a: "next_it ?h (FileIt (file_iterator (RefV 0)))
     = (Inl StopIteration, ?h, FileIt (file_iterator (RefV 0)))"
    by (simp add: next_it_def file_iterator_next_def deref_def readline_def read_line_def
          sample_file_def store_def)
  have b: "next_it [OList [IntV 7]] (NativeIt (seqiter (Some (RefV 0)) 1))
     = (Inl StopIteration, [OList [IntV 7]], NativeIt (seqiter None 1))"
    by (simp add: next_it_def native_next_def iter_items_def deref_def)
  have c: "codecs_iterator_next ?h ?c = (Inl StopIteration, ?h, ?c)"
    by (simp add: codecs_iterator_next_def deref_def is_fileobj_def readable_def obj_data_def
          obj_pos_def obj_set_pos_def buffers_of_def with_buffers_def readahead_reader_def read_line_def
          sample_file_def store_def)
  have s: "eof_stable (stream_generator ?c)"
    by (simp add: eof_stable_readahead)
  note ed = exhaustion_deterministic[of ?h "FileIt (file_iterator (RefV 0))" ?h
         "FileIt (file_iterator (RefV 0))" ?c ?c]
  from ed a have a2: "consume (Suc 3) ?h (FileIt (file_iterator (RefV 0)))
     = ([], Some StopIteration, ?h, FileIt (file_iterator (RefV 0)))"
    by blast
  from ed c s have c2: "codecs_consume (Suc 3) ?h ?c = ([], Some StopIteration, ?h, ?c)"
    by blast
  from exhaustion_deterministic[of "[OList [IntV 7]]" "NativeIt (seqiter (Some (RefV 0)) 1)"
         "[OList [IntV 7]]" "NativeIt (seqiter None 1)" ?c ?c] b
  have b2: "next_it [OList [IntV 7]] (NativeIt (seqiter None 1))
     = (Inl StopIteration, [OList [IntV 7]], NativeIt (seqiter None 1))"
    by blast
  from a a2 b b2 c c2 show ?thesis
    by (simp add: eof_stable_readahead)
qed


subsection \<open>Capture and restore of the dispatcher's wrappers\<close>








lemma range_items_length [simp]: "length (range_items a b c) = range_len a b c"
  by (simp add: range_items_def)








lemma file_roundtrip:
  assumes "deref h x = Some (OFile fo)" and "files e (f_name fo) = Some (f_data fo)"
    and "f_pos fo \<le> max_offset e"
  shows "file_it_getstate h (file_iterator x) = Inr (f_name fo, f_pos fo, StrV (f_mode fo)) \<and>
         file_it_setstate e h (new_file_it Cls_file_iterator) (f_name fo, f_pos fo, StrV (f_mode fo))
           = (None, h @ [OFile fo], file_iterator (RefV (length h)))"
  using assms
  by (simp add: file_it_getstate_def file_iterator_getstate_def name_of_def tell_def mode_of_def
        file_it_setstate_def new_file_it_def file_iterator_setstate_def py_open_def alloc_def
        seek_def store_alloc_new set_f_def)

lemma gfile_roundtrip:
  assumes "deref h x = Some (OGzipFile g)" and "files e (gz_name g) = Some raw"
    and "gunzip e raw = Some d" and "gz_data g = Some d" and "gz_pos g \<le> length d"
  shows "\<exists>g'. file_it_getstate h (gfile_iterator x)
                 = Inr (gz_name g, gz_pos g, StrV (f_mode (myfileobj g))) \<and>
         file_it_setstate e h (new_file_it Cls_gfile_iterator)
            (gz_name g, gz_pos g, StrV (f_mode (myfileobj g)))
           = (None, h @ [OGzipFile g'], gfile_iterator (RefV (length h))) \<and>
         gz_data g' = gz_data g \<and> gz_pos g' = gz_pos g"
  using assms
  by (simp add: file_it_getstate_def gfile_iterator_getstate_def name_of_def tell_def
        myfileobj_mode_def file_it_setstate_def new_file_it_def gfile_iterator_setstate_def
        gzip_open_def alloc_def gz_seek_def store_alloc_new set_f_def min_def)


lemma resource_unchanged_readable:
  "deref h (file_f fi) = Some ob \<Longrightarrow> resource_unchanged e h fi \<Longrightarrow> readable ob"
  by (cases ob) (auto simp: resource_unchanged_def readable_def split: option.splits)


lemma resource_unchanged_set_pos:
  assumes "deref h (file_f fi) = Some ob" "resource_unchanged e h fi"
    and "p \<le> max (obj_pos ob) (length (obj_data ob))"
  shows "resource_unchanged e (store h (file_f fi) (obj_set_pos ob p)) fi"
  using assms deref_store_same[OF assms(1), of "obj_set_pos ob p"]
  by (cases ob)
     (auto simp: resource_unchanged_def obj_set_pos_def obj_pos_def obj_data_def
           split: option.splits)






subsection \<open>The decoded-stream iterator\<close>

lemma isinstance_file_iff:
  "isinstance h f [C_GzipFile, if six cfg = PY2 then C_file else C_IOBase] = is_open_file cfg h f"
  by (cases "six cfg")
     (auto simp: isinstance_def instance_of_def is_open_file_def is_fileobj_def
           split: option.splits obj.splits)

lemma iter_open_file:
  "is_open_file cfg h f \<Longrightarrow>
   iter_' cfg h f =
     (Inr (FileIt (case deref h f of Some (OGzipFile g) \<Rightarrow> gfile_iterator f
                   | Some (OGzipOver g) \<Rightarrow> gfile_iterator f
                   | _ \<Rightarrow> file_iterator f)), h)"
  by (cases "six cfg")
     (auto simp: iter_'_def isinstance_def instance_of_def is_open_file_def is_fileobj_def
           split: option.splits obj.splits)

lemma file_f_dispatch [simp]:
  "file_f (case deref h f of Some (OGzipFile g) \<Rightarrow> gfile_iterator f
           | Some (OGzipOver g) \<Rightarrow> gfile_iterator f | _ \<Rightarrow> file_iterator f) = f"
  by (simp split: option.splits obj.splits)

text \<open>
  Claim C5. Constructing a \<^verbatim>\<open>codecs_iterator\<close> over anything that is not an open file
  object (plain or compressed) raises \<^verbatim>\<open>AssertionError\<close>; no iterator is returned and
  the heap is unchanged. Over an open file object the first assertion passes: the
  constructor wraps the file in the file iterator of its kind and applies the decoder
  factory to the file. What counts as an open file object is a \<^verbatim>\<open>GzipFile\<close> and, on
  Python 2, a \<^verbatim>\<open>file\<close>, on Python 3, any \<^verbatim>\<open>io.IOBase\<close>: an in-memory stream is accepted
  on Python 3 and refused on Python 2.
\<close>

theorem codecs_init_requires_file:
  "(\<not> is_open_file cfg h f \<longrightarrow> codecs_iterator_init cfg h f strm = (Inl AssertionError, h)) \<and>
   (is_open_file cfg h f \<longrightarrow>
      codecs_iterator_init cfg h f strm =
        (case factory strm f of
           Inl e \<Rightarrow> (Inl e, h)
         | Inr d \<Rightarrow>
             (Inr \<lparr>c_file_iterator =
                     (case deref h f of Some (OGzipFile g) \<Rightarrow> gfile_iterator f
                      | Some (OGzipOver g) \<Rightarrow> gfile_iterator f
                      | _ \<Rightarrow> file_iterator f),
                   stream_generator = strm, c_stream = d\<rparr>, h)))"
proof (cases "is_open_file cfg h f")
  case False
  then show ?thesis
    by (simp add: codecs_iterator_init_def isinstance_file_iff)
next
  case True
  then show ?thesis
    by (auto simp: codecs_iterator_init_def isinstance_file_iff iter_open_file
             split: option.splits obj.splits sum.splits)
qed

theorem codecs_init_requires_file_witness:
  "\<not> is_open_file \<lparr>six = PY3, NUMPY_AVAILABLE = False\<rparr> [OList [IntV 1]] (RefV 0) \<and>
   codecs_iterator_init \<lparr>six = PY3, NUMPY_AVAILABLE = False\<rparr> [OList [IntV 1]] (RefV 0)
       readahead_reader
     = (Inl AssertionError, [OList [IntV 1]]) \<and>
   \<not> is_open_file \<lparr>six = PY2, NUMPY_AVAILABLE = False\<rparr> [] (StrV ''f.txt'') \<and>
   codecs_iterator_init \<lparr>six = PY2, NUMPY_AVAILABLE = False\<rparr> [] (StrV ''f.txt'')
       readahead_reader
     = (Inl AssertionError, []) \<and>
   \<not> is_open_file \<lparr>six = PY2, NUMPY_AVAILABLE = False\<rparr> [OStringIO sample_stringio] (RefV 0) \<and>
   codecs_iterator_init \<lparr>six = PY2, NUMPY_AVAILABLE = False\<rparr> [OStringIO sample_stringio]
       (RefV 0) readahead_reader
     = (Inl AssertionError, [OStringIO sample_stringio]) \<and>
   is_open_file \<lparr>six = PY3, NUMPY_AVAILABLE = False\<rparr> [OFile sample_file] (RefV 0) \<and>
   codecs_iterator_init \<lparr>six = PY3, NUMPY_AVAILABLE = False\<rparr> [OFile sample_file] (RefV 0)
       readahead_reader
     = (Inr \<lparr>c_file_iterator = file_iterator (RefV 0), stream_generator = readahead_reader,
             c_stream = \<lparr>stream = RefV 0, bytebuffer = [], charbuffer = [],
                         linebuffer = None, errors = ''strict''\<rparr>\<rparr>,
        [OFile sample_file]) \<and>
   is_open_file \<lparr>six = PY3, NUMPY_AVAILABLE = False\<rparr> [OGzipFile sample_gzip] (RefV 0) \<and>
   codecs_iterator_init \<lparr>six = PY3, NUMPY_AVAILABLE = False\<rparr> [OGzipFile sample_gzip] (RefV 0)
       readahead_reader
     = (Inr \<lparr>c_file_iterator = gfile_iterator (RefV 0), stream_generator = readahead_reader,
             c_stream = \<lparr>stream = RefV 0, bytebuffer = [], charbuffer = [],
                         linebuffer = None, errors = ''strict''\<rparr>\<rparr>,
        [OGzipFile sample_gzip])"
proof -
  let ?py2 = "\<lparr>six = PY2, NUMPY_AVAILABLE = False\<rparr>"
  let ?py3 = "\<lparr>six = PY3, NUMPY_AVAILABLE = False\<rparr>"
  have a: "\<not> is_open_file ?py3 [OList [IntV 1]] (RefV 0)"
    by (simp add: is_open_file_def deref_def)
  have b: "\<not> is_open_file ?py2 [] (StrV ''f.txt'')"
    by (simp add: is_open_file_def deref_def)
  have c: "\<not> is_open_file ?py2 [OStringIO sample_stringio] (RefV 0)"
    by (simp add: is_open_file_def deref_def)
  have d: "is_open_file ?py3 [OFile sample_file] (RefV 0)"
    by (simp add: is_open_file_def deref_def)
  have e: "is_open_file ?py3 [OGzipFile sample_gzip] (RefV 0)"
    by (simp add: is_open_file_def deref_def)
  from codecs_init_requires_file[where cfg = ?py3 and h = "[OList [IntV 1]]" and f = "RefV 0"
         and strm = readahead_reader]
       codecs_init_requires_file[where cfg = ?py2 and h = "[]" and f = "StrV ''f.txt''"
         and strm = readahead_reader]
       codecs_init_requires_file[where cfg = ?py2 and h = "[OStringIO sample_stringio]"
         and f = "RefV 0" and strm = readahead_reader]
       codecs_init_requires_file[where cfg = ?py3 and h = "[OFile sample_file]" and f = "RefV 0"
         and strm = readahead_reader]
       codecs_init_requires_file[where cfg = ?py3 and h = "[OGzipFile sample_gzip]"
         and f = "RefV 0" and strm = readahead_reader]
       a b c d e
  show ?thesis
    by (simp add: readahead_reader_def deref_def)
qed

text \<open>
  Claim C4 as stated says that a restore that raises leaves no mutation of the wrapper
  behind. \<^verbatim>\<open>codecs_iterator.__setstate__\<close> assigns \<^verbatim>\<open>_file_iterator\<close> and
  \<^verbatim>\<open>_stream_generator\<close> before it calls the decoder factory: when the factory raises,
  the wrapper already holds the inner iterator of the state.
\<close>

theorem restore_partial_counterexample:
  "fst (codecs_iterator_setstate
          \<lparr>c_file_iterator = file_iterator (RefV 0), stream_generator = readahead_reader,
            c_stream = \<lparr>stream = RefV 0, bytebuffer = [], charbuffer = [], linebuffer = None,
                        errors = ''strict''\<rparr>\<rparr>
          (file_iterator (RefV 1), failing_reader, [], [], None, ''strict'')) = Some TypeError \<and>
   c_file_iterator (snd (codecs_iterator_setstate
          \<lparr>c_file_iterator = file_iterator (RefV 0), stream_generator = readahead_reader,
            c_stream = \<lparr>stream = RefV 0, bytebuffer = [], charbuffer = [], linebuffer = None,
                        errors = ''strict''\<rparr>\<rparr>
          (file_iterator (RefV 1), failing_reader, [], [], None, ''strict'')))
     = file_iterator (RefV 1) \<and>
   file_iterator (RefV 1) \<noteq> file_iterator (RefV 0)"
  by (simp add: codecs_iterator_setstate_def failing_reader_def)

text \<open>
  Claim C4, amended. A restore that raises is atomic only when it is the opening that
  raises. For a resource iterator, plain or compressed: if \<^verbatim>\<open>open\<close> (or \<^verbatim>\<open>gzip.open\<close>)
  raises, the heap and the iterator are as before the call; if it returns and the
  \<^verbatim>\<open>seek\<close> that follows raises, the call raises with the newly opened file object
  allocated and already assigned to \<^verbatim>\<open>_f\<close>. When the restore of the inner iterator
  raises as the first step of restoring a decoded-stream iterator,
  \<^verbatim>\<open>codecs_iterator.__setstate__\<close> is not called and the decoded-stream iterator is
  unchanged. \<^verbatim>\<open>codecs_iterator.__setstate__\<close> itself is not atomic: if the decoder factory
  raises, the call raises with the inner iterator and the factory already replaced by
  those of the state and the decoder unchanged; if the factory returns, the call
  succeeds and the decoder is the factory's result with the four captured buffers
  written onto it.
\<close>

theorem restore_atomicity:
  "(\<forall>name pos mode ex. py_open e name mode = Inl ex \<longrightarrow>
      file_iterator_setstate e h fi (name, pos, mode) = (Some ex, h, fi)) \<and>
   (\<forall>name pos mode fo ex. py_open e name mode = Inr fo \<and> seek e fo pos = Inl ex \<longrightarrow>
      file_iterator_setstate e h fi (name, pos, mode) =
        (Some ex, h @ [OFile fo], set_f fi (RefV (length h)))) \<and>
   (\<forall>name pos mode ex. gzip_open e name mode = Inl ex \<longrightarrow>
      gfile_iterator_setstate e h fi (name, pos, mode) = (Some ex, h, fi)) \<and>
   (\<forall>name pos mode g ex. gzip_open e name mode = Inr g \<and> gz_seek g pos = Inl ex \<longrightarrow>
      gfile_iterator_setstate e h fi (name, pos, mode) =
        (Some ex, h @ [OGzipFile g], set_f fi (RefV (length h)))) \<and>
   (fst (file_it_setstate e h (new_file_it c) st) \<noteq> None \<longrightarrow>
      codecs_restore e h it ((c, st), gen, bb, cb, lb, er) =
        (fst (file_it_setstate e h (new_file_it c) st),
         fst (snd (file_it_setstate e h (new_file_it c) st)), it)) \<and>
   (\<forall>ex. factory gen (file_f fi') = Inl ex \<longrightarrow>
      codecs_iterator_setstate it (fi', gen, bb, cb, lb, er) =
        (Some ex, it\<lparr>c_file_iterator := fi', stream_generator := gen\<rparr>)) \<and>
   (\<forall>d. factory gen (file_f fi') = Inr d \<longrightarrow>
      codecs_iterator_setstate it (fi', gen, bb, cb, lb, er) =
        (None, \<lparr>c_file_iterator = fi', stream_generator = gen,
                c_stream = d\<lparr>bytebuffer := bb, charbuffer := cb, linebuffer := lb,
                             errors := er\<rparr>\<rparr>))"
proof -
  have a1: "\<forall>name pos mode ex. py_open e name mode = Inl ex \<longrightarrow>
      file_iterator_setstate e h fi (name, pos, mode) = (Some ex, h, fi)"
    by (simp add: file_iterator_setstate_def)
  have a2: "\<forall>name pos mode fo ex. py_open e name mode = Inr fo \<and> seek e fo pos = Inl ex \<longrightarrow>
      file_iterator_setstate e h fi (name, pos, mode) =
        (Some ex, h @ [OFile fo], set_f fi (RefV (length h)))"
    by (simp add: file_iterator_setstate_def alloc_def)
  have a3: "\<forall>name pos mode ex. gzip_open e name mode = Inl ex \<longrightarrow>
      gfile_iterator_setstate e h fi (name, pos, mode) = (Some ex, h, fi)"
    by (simp add: gfile_iterator_setstate_def)
  have a4: "\<forall>name pos mode g ex. gzip_open e name mode = Inr g \<and> gz_seek g pos = Inl ex \<longrightarrow>
      gfile_iterator_setstate e h fi (name, pos, mode) =
        (Some ex, h @ [OGzipFile g], set_f fi (RefV (length h)))"
    by (simp add: gfile_iterator_setstate_def alloc_def)
  have b: "fst (file_it_setstate e h (new_file_it c) st) \<noteq> None \<longrightarrow>
      codecs_restore e h it ((c, st), gen, bb, cb, lb, er) =
        (fst (file_it_setstate e h (new_file_it c) st),
         fst (snd (file_it_setstate e h (new_file_it c) st)), it)"
    by (cases "file_it_setstate e h (new_file_it c) st") (auto simp: codecs_restore_def)
  have c: "\<forall>ex. factory gen (file_f fi') = Inl ex \<longrightarrow>
      codecs_iterator_setstate it (fi', gen, bb, cb, lb, er) =
        (Some ex, it\<lparr>c_file_iterator := fi', stream_generator := gen\<rparr>)"
    by (simp add: codecs_iterator_setstate_def)
  have d: "\<forall>d. factory gen (file_f fi') = Inr d \<longrightarrow>
      codecs_iterator_setstate it (fi', gen, bb, cb, lb, er) =
        (None, \<lparr>c_file_iterator = fi', stream_generator = gen,
                c_stream = d\<lparr>bytebuffer := bb, charbuffer := cb, linebuffer := lb,
                             errors := er\<rparr>\<rparr>)"
    by (simp add: codecs_iterator_setstate_def)
  from a1 a2 a3 a4 b c d show ?thesis by blast
qed

theorem restore_atomicity_witness:
  "py_open sample_env ''gone.txt'' (StrV ''r'') = Inl IOError \<and>
   file_iterator_setstate sample_env [OFile sample_file] (file_iterator (RefV 0))
       (''gone.txt'', 6, StrV ''r'')
     = (Some IOError, [OFile sample_file], file_iterator (RefV 0)) \<and>
   py_open sample_env ''f.txt'' (StrV ''r'') = Inr sample_file \<and>
   seek sample_env sample_file (2 ^ 62 + 1) = Inl IOError \<and>
   file_iterator_setstate sample_env [OFile sample_file] (file_iterator (RefV 0))
       (''f.txt'', 2 ^ 62 + 1, StrV ''r'')
     = (Some IOError, [OFile sample_file, OFile sample_file], file_iterator (RefV 1)) \<and>
   gzip_open sample_env ''gone.gz'' (StrV ''rb'') = Inl IOError \<and>
   gfile_iterator_setstate sample_env [OGzipFile sample_gzip] (gfile_iterator (RefV 0))
       (''gone.gz'', 6, StrV ''rb'')
     = (Some IOError, [OGzipFile sample_gzip], gfile_iterator (RefV 0)) \<and>
   gzip_open sample_env ''f.txt'' (StrV ''rb'')
     = Inr \<lparr>gz_name = ''f.txt'', gz_mode = IntV 1, gz_pos = 0, gz_data = None,
            myfileobj = \<lparr>f_name = ''f.txt'', f_mode = ''rb'', f_pos = 0,
                          f_data = ''line1\<newline>line2\<newline>''\<rparr>\<rparr> \<and>
   gz_seek \<lparr>gz_name = ''f.txt'', gz_mode = IntV 1, gz_pos = 0, gz_data = None,
            myfileobj = \<lparr>f_name = ''f.txt'', f_mode = ''rb'', f_pos = 0,
                          f_data = ''line1\<newline>line2\<newline>''\<rparr>\<rparr> 6 = Inl IOError \<and>
   gfile_iterator_setstate sample_env [OGzipFile sample_gzip] (gfile_iterator (RefV 0))
       (''f.txt'', 6, StrV ''rb'')
     = (Some IOError,
        [OGzipFile sample_gzip,
         OGzipFile \<lparr>gz_name = ''f.txt'', gz_mode = IntV 1, gz_pos = 0, gz_data = None,
                    myfileobj = \<lparr>f_name = ''f.txt'', f_mode = ''rb'', f_pos = 0,
                                  f_data = ''line1\<newline>line2\<newline>''\<rparr>\<rparr>],
        gfile_iterator (RefV 1)) \<and>
   fst (file_it_setstate sample_env [OFile sample_file] (new_file_it Cls_file_iterator)
          (''gone.txt'', 6, StrV ''r'')) \<noteq> None \<and>
   codecs_restore sample_env [OFile sample_file]
       \<lparr>c_file_iterator = file_iterator (RefV 0), stream_generator = readahead_reader,
        c_stream = \<lparr>stream = RefV 0, bytebuffer = [], charbuffer = [], linebuffer = None,
                    errors = ''strict''\<rparr>\<rparr>
       ((Cls_file_iterator, ''gone.txt'', 6, StrV ''r''), failing_reader,
        ''x'', ''y'', None, ''ignore'')
     = (Some IOError, [OFile sample_file],
        \<lparr>c_file_iterator = file_iterator (RefV 0), stream_generator = readahead_reader,
         c_stream = \<lparr>stream = RefV 0, bytebuffer = [], charbuffer = [], linebuffer = None,
                     errors = ''strict''\<rparr>\<rparr>) \<and>
   factory failing_reader (file_f (file_iterator (RefV 1))) = Inl TypeError \<and>
   codecs_iterator_setstate
       \<lparr>c_file_iterator = file_iterator (RefV 0), stream_generator = readahead_reader,
        c_stream = \<lparr>stream = RefV 0, bytebuffer = [], charbuffer = [], linebuffer = None,
                    errors = ''strict''\<rparr>\<rparr>
       (file_iterator (RefV 1), failing_reader, ''x'', ''y'', None, ''ignore'')
     = (Some TypeError,
        \<lparr>c_file_iterator = file_iterator (RefV 1), stream_generator = failing_reader,
         c_stream = \<lparr>stream = RefV 0, bytebuffer = [], charbuffer = [], linebuffer = None,
                     errors = ''strict''\<rparr>\<rparr>) \<and>
   factory readahead_reader (file_f (file_iterator (RefV 1)))
     = Inr \<lparr>stream = RefV 1, bytebuffer = [], charbuffer = [], linebuffer = None,
            errors = ''strict''\<rparr> \<and>
   codecs_iterator_setstate
       \<lparr>c_file_iterator = file_iterator (RefV 0), stream_generator = failing_reader,
        c_stream = \<lparr>stream = RefV 0, bytebuffer = [], charbuffer = [], linebuffer = None,
                    errors = ''strict''\<rparr>\<rparr>
       (file_iterator (RefV 1), readahead_reader, ''x'', ''y'', None, ''ignore'')
     = (None,
        \<lparr>c_file_iterator = file_iterator (RefV 1), stream_generator = readahead_reader,
         c_stream = \<lparr>stream = RefV 1, bytebuffer = ''x'', charbuffer = ''y'', linebuffer = None,
                     errors = ''ignore''\<rparr>\<rparr>)"
proof -
  let ?it = "\<lparr>c_file_iterator = file_iterator (RefV 0), stream_generator = readahead_reader,
        c_stream = \<lparr>stream = RefV 0, bytebuffer = [], charbuffer = [], linebuffer = None,
                    errors = ''strict''\<rparr>\<rparr>"
  let ?it' = "\<lparr>c_file_iterator = file_iterator (RefV 0), stream_generator = failing_reader,
        c_stream = \<lparr>stream = RefV 0, bytebuffer = [], charbuffer = [], linebuffer = None,
                    errors = ''strict''\<rparr>\<rparr>"
  let ?g = "\<lparr>gz_name = ''f.txt'', gz_mode = IntV 1, gz_pos = 0, gz_data = None,
            myfileobj = \<lparr>f_name = ''f.txt'', f_mode = ''rb'', f_pos = 0,
                          f_data = ''line1\<newline>line2\<newline>''\<rparr>\<rparr>"
  have o1: "py_open sample_env ''gone.txt'' (StrV ''r'') = Inl IOError"
    by (simp add: py_open_def sample_env_def)
  have o2: "py_open sample_env ''f.txt'' (StrV ''r'') = Inr sample_file"
    by (simp add: py_open_def sample_env_def sample_file_def)
  have s2: "seek sample_env sample_file (2 ^ 62 + 1) = Inl IOError"
    by (simp add: seek_def sample_env_def)
  have o3: "gzip_open sample_env ''gone.gz'' (StrV ''rb'') = Inl IOError"
    by (simp add: gzip_open_def sample_env_def)
  have o4: "gzip_open sample_env ''f.txt'' (StrV ''rb'') = Inr ?g"
    by (simp add: gzip_open_def sample_env_def)
  have s4: "gz_seek ?g 6 = Inl IOError"
    by (simp add: gz_seek_def)
  have a: "fst (file_it_setstate sample_env [OFile sample_file] (new_file_it Cls_file_iterator)
          (''gone.txt'', 6, StrV ''r'')) \<noteq> None"
    by (simp add: file_it_setstate_def file_iterator_setstate_def py_open_def sample_env_def
          new_file_it_def)
  have a': "file_it_setstate sample_env [OFile sample_file] (new_file_it Cls_file_iterator)
          (''gone.txt'', 6, StrV ''r'') = (Some IOError, [OFile sample_file], file_iterator NoneV)"
    by (simp add: file_it_setstate_def file_iterator_setstate_def py_open_def sample_env_def
          new_file_it_def)
  have b: "factory failing_reader (file_f (file_iterator (RefV 1))) = Inl TypeError"
    by (simp add: failing_reader_def)
  have c: "factory readahead_reader (file_f (file_iterator (RefV 1)))
     = Inr \<lparr>stream = RefV 1, bytebuffer = [], charbuffer = [], linebuffer = None,
            errors = ''strict''\<rparr>"
    by (simp add: readahead_reader_def)
  note t = restore_atomicity[where e = sample_env and h = "[OFile sample_file]"
         and fi = "file_iterator (RefV 0)" and st = "(''gone.txt'', 6, StrV ''r'')"
         and c = Cls_file_iterator and gen = failing_reader and fi' = "file_iterator (RefV 1)"
         and it = ?it and bb = "''x''" and cb = "''y''" and lb = None and er = "''ignore''"]
  note u = restore_atomicity[where e = sample_env and h = "[OGzipFile sample_gzip]"
         and fi = "gfile_iterator (RefV 0)" and st = "(''gone.txt'', 6, StrV ''r'')"
         and c = Cls_file_iterator and gen = readahead_reader and fi' = "file_iterator (RefV 1)"
         and it = ?it' and bb = "''x''" and cb = "''y''" and lb = None and er = "''ignore''"]
  have r1: "file_iterator_setstate sample_env [OFile sample_file] (file_iterator (RefV 0))
       (''gone.txt'', 6, StrV ''r'')
     = (Some IOError, [OFile sample_file], file_iterator (RefV 0))"
    by (rule t[THEN conjunct1, rule_format, OF o1])
  have r2: "file_iterator_setstate sample_env [OFile sample_file] (file_iterator (RefV 0))
       (''f.txt'', 2 ^ 62 + 1, StrV ''r'')
     = (Some IOError, [OFile sample_file] @ [OFile sample_file],
        set_f (file_iterator (RefV 0)) (RefV (length [OFile sample_file])))"
    by (rule t[THEN conjunct2, THEN conjunct1, rule_format, OF conjI[OF o2 s2]])
  have r3: "gfile_iterator_setstate sample_env [OGzipFile sample_gzip] (gfile_iterator (RefV 0))
       (''gone.gz'', 6, StrV ''rb'')
     = (Some IOError, [OGzipFile sample_gzip], gfile_iterator (RefV 0))"
    by (rule u[THEN conjunct2, THEN conjunct2, THEN conjunct1, rule_format, OF o3])
  have r4: "gfile_iterator_setstate sample_env [OGzipFile sample_gzip] (gfile_iterator (RefV 0))
       (''f.txt'', 6, StrV ''rb'')
     = (Some IOError, [OGzipFile sample_gzip] @ [OGzipFile ?g],
        set_f (gfile_iterator (RefV 0)) (RefV (length [OGzipFile sample_gzip])))"
    by (rule u[THEN conjunct2, THEN conjunct2, THEN conjunct2, THEN conjunct1, rule_format,
                OF conjI[OF o4 s4]])
  have r5: "codecs_restore sample_env [OFile sample_file] ?it
       ((Cls_file_iterator, ''gone.txt'', 6, StrV ''r''), failing_reader,
        ''x'', ''y'', None, ''ignore'')
     = (Some IOError, [OFile sample_file], ?it)"
    using t[THEN conjunct2, THEN conjunct2, THEN conjunct2, THEN conjunct2, THEN conjunct1,
            rule_format, OF a]
    by (simp add: a')
  have r6: "codecs_iterator_setstate ?it
       (file_iterator (RefV 1), failing_reader, ''x'', ''y'', None, ''ignore'')
     = (Some TypeError, ?it\<lparr>c_file_iterator := file_iterator (RefV 1),
                             stream_generator := failing_reader\<rparr>)"
    by (rule t[THEN conjunct2, THEN conjunct2, THEN conjunct2, THEN conjunct2, THEN conjunct2,
                THEN conjunct1, rule_format, OF b])
  have r7: "codecs_iterator_setstate ?it'
       (file_iterator (RefV 1), readahead_reader, ''x'', ''y'', None, ''ignore'')
     = (None, \<lparr>c_file_iterator = file_iterator (RefV 1), stream_generator = readahead_reader,
               c_stream = \<lparr>stream = RefV 1, bytebuffer = [], charbuffer = [], linebuffer = None,
                           errors = ''strict''\<rparr>\<lparr>bytebuffer := ''x'', charbuffer := ''y'',
                              linebuffer := None, errors := ''ignore''\<rparr>\<rparr>)"
    by (rule u[THEN conjunct2, THEN conjunct2, THEN conjunct2, THEN conjunct2, THEN conjunct2,
                THEN conjunct2, rule_format, OF c])
  from o1 r1 o2 s2 r2 o3 r3 o4 s4 r4 a r5 b r6 c r7 show ?thesis
    by (simp add: set_f_def)
qed

lemma codecs_consume_lines:
  "deref h (stream (c_stream it)) = Some ob \<Longrightarrow> readable ob \<Longrightarrow>
   codecs_consume n h it =
     (case dec_lines (stream_generator it) n (buffers_of (c_stream it)) (obj_data ob) (obj_pos ob) of
        (vs, r, b', p') \<Rightarrow>
          (vs, r, store h (stream (c_stream it)) (obj_set_pos ob p'),
           it\<lparr>c_stream := with_buffers (c_stream it) b'\<rparr>))"
proof (induction n arbitrary: h it ob)
  case 0
  then show ?case by (simp add: store_same_id)
next
  case (Suc n)
  let ?s = "stream (c_stream it)"
  obtain r b' p' where rl:
    "dec_readline (stream_generator it) (buffers_of (c_stream it)) (obj_data ob) (obj_pos ob)
       = (r, b', p')"
    by (cases "dec_readline (stream_generator it) (buffers_of (c_stream it)) (obj_data ob) (obj_pos ob)")
       auto
  let ?h = "store h ?s (obj_set_pos ob p')"
  let ?it = "it\<lparr>c_stream := with_buffers (c_stream it) b'\<rparr>"
  have nx: "codecs_iterator_next h it =
              (case r of Inl e \<Rightarrow> (Inl e, ?h, ?it)
               | Inr line \<Rightarrow> if line = [] then (Inl StopIteration, ?h, ?it)
                              else (Inr (StrV line), ?h, ?it))"
    using Suc.prems rl readable_fileobj[OF Suc.prems(2)]
    by (simp add: codecs_iterator_next_def Let_def)
  show ?case
  proof (cases r)
    case (Inl e)
    then show ?thesis using rl nx by simp
  next
    case (Inr line)
    show ?thesis
    proof (cases "line = []")
      case True
      then show ?thesis using rl nx Inr by simp
    next
      case False
      have d: "deref ?h (stream (c_stream ?it)) = Some (obj_set_pos ob p')"
        using deref_store_same[OF Suc.prems(1)] by simp
      have f: "readable (obj_set_pos ob p')"
        using Suc.prems(2) by simp
      show ?thesis
        using False rl nx Inr Suc.IH[OF d f] Suc.prems(2)
        by (simp add: store_store split: prod.splits)
    qed
  qed
qed

lemma codecs_outputs_lines:
  "deref h (stream (c_stream it)) = Some ob \<Longrightarrow> readable ob \<Longrightarrow>
   codecs_outputs n h it =
     (case dec_lines (stream_generator it) n (buffers_of (c_stream it)) (obj_data ob) (obj_pos ob) of
        (vs, r, b', p') \<Rightarrow> (vs, r))"
  by (simp add: codecs_outputs_def codecs_consume_lines split: prod.splits)

lemma codecs_consume_append:
  "codecs_consume k h it = (vs, None, h2, it2) \<Longrightarrow>
   codecs_consume (k + n) h it =
     (case codecs_consume n h2 it2 of (ws, r, h', it') \<Rightarrow> (vs @ ws, r, h', it'))"
proof (induction k arbitrary: h it vs)
  case 0
  then show ?case by (simp split: prod.splits)
next
  case (Suc k)
  then show ?case
    by (auto split: prod.splits sum.splits)
qed

lemma codecs_outputs_append:
  "codecs_consume k h it = (vs, None, h2, it2) \<Longrightarrow>
   codecs_outputs (k + n) h it
     = (vs @ fst (codecs_outputs n h2 it2), snd (codecs_outputs n h2 it2))"
  by (simp add: codecs_outputs_def codecs_consume_append split: prod.splits)

lemma reads_withinD:
  "reads_within c \<Longrightarrow> dec_readline c b d p = (r, b', p') \<Longrightarrow> p' \<le> max p (length d)"
  unfolding reads_within_def by (erule allE[of _ b], erule allE[of _ d], erule allE[of _ p]) simp

lemma dec_lines_within:
  "reads_within c \<Longrightarrow> dec_lines c n b d p = (vs, r, b', p') \<Longrightarrow> p' \<le> max p (length d)"
proof (induction n arbitrary: b p vs r b' p')
  case 0
  then show ?case by simp
next
  case (Suc n)
  obtain r1 b1 p1 where rl: "dec_readline c b d p = (r1, b1, p1)"
    by (cases "dec_readline c b d p") auto
  from reads_withinD[OF Suc.prems(1) rl] have le: "p1 \<le> max p (length d)" .
  show ?case
  proof (cases r1)
    case (Inl ex)
    with Suc.prems(2) rl le show ?thesis by simp
  next
    case (Inr l)
    show ?thesis
    proof (cases "l = []")
      case True
      with Suc.prems(2) rl Inr le show ?thesis by simp
    next
      case False
      obtain vs2 r2 b2 p2 where dl: "dec_lines c n b1 d p1 = (vs2, r2, b2, p2)"
        by (cases "dec_lines c n b1 d p1") auto
      from Suc.IH[OF Suc.prems(1) dl] have "p2 \<le> max p1 (length d)" .
      moreover from Suc.prems(2) rl Inr False dl have "p' = p2" by simp
      ultimately show ?thesis using le by simp
    qed
  qed
qed

lemma reads_within_readahead: "reads_within readahead_reader"
  by (simp add: reads_within_def readahead_reader_def Let_def)

lemma wraps_handleD: "wraps_handle c \<Longrightarrow> \<exists>d. factory c r = Inr d \<and> stream d = r"
  unfolding wraps_handle_def by (erule allE[of _ r]) (auto split: sum.splits)

lemma wraps_handle_readahead: "wraps_handle readahead_reader"
  by (simp add: wraps_handle_def readahead_reader_def)

lemma codecs_init_facts:
  assumes "codecs_iterator_init cfg h0 f gen = (Inr it0, h1)"
  shows "h1 = h0 \<and> is_open_file cfg h0 f \<and> stream_generator it0 = gen \<and>
         factory gen f = Inr (c_stream it0) \<and>
         c_file_iterator it0 = (case deref h0 f of Some (OGzipFile g) \<Rightarrow> gfile_iterator f
                                | Some (OGzipOver g) \<Rightarrow> gfile_iterator f
                                | _ \<Rightarrow> file_iterator f)"
proof -
  have o: "is_open_file cfg h0 f"
    using assms by (auto simp: codecs_iterator_init_def isinstance_file_iff split: if_splits)
  with assms show ?thesis
    by (auto simp: codecs_iterator_init_def isinstance_file_iff iter_open_file
             split: sum.splits)
qed

lemma codecs_roundtrip_state:
  assumes s: "stream (c_stream it) = x" and fx: "file_f (c_file_iterator it) = x"
    and d: "deref h x = Some ob"
    and cls: "(\<exists>g. c_file_iterator it = gfile_iterator x \<and> ob = OGzipFile g) \<or>
              (\<exists>fo. c_file_iterator it = file_iterator x \<and> ob = OFile fo)"
    and ru: "resource_unchanged e h (c_file_iterator it)"
    and w: "wraps_handle (stream_generator it)"
  shows "\<exists>snap h3 it3. codecs_capture h it = Inr snap \<and>
           codecs_restore e h fresh snap = (None, h3, it3) \<and>
           (\<forall>n. codecs_outputs n h3 it3 = codecs_outputs n h it)"
proof -
  let ?gen = "stream_generator it"
  let ?fi = "c_file_iterator it"
  from wraps_handleD[OF w, of "RefV (length h)"] obtain dd where
    dd: "factory ?gen (RefV (length h)) = Inr dd" "stream dd = RefV (length h)"
    by blast
  have dfi: "deref h (file_f ?fi) = Some ob" using d fx by simp
  have fo: "readable ob" by (rule resource_unchanged_readable[OF dfi ru])
  have "\<exists>st fi' ob'. file_it_getstate h ?fi = Inr st \<and>
          file_it_setstate e h (new_file_it (class_of ?fi)) st = (None, h @ [ob'], fi') \<and>
          file_f fi' = RefV (length h) \<and> readable ob' \<and>
          obj_data ob' = obj_data ob \<and> obj_pos ob' = obj_pos ob"
    using cls
  proof (elim disjE exE conjE)
    fix g assume fi: "?fi = gfile_iterator x" and ob: "ob = OGzipFile g"
    from ru d ob fx obtain raw dd where raw: "files e (gz_name g) = Some raw"
        "gunzip e raw = Some dd" "gz_data g = Some dd" "gz_pos g \<le> length dd"
      by (auto simp: resource_unchanged_def split: option.splits)
    from d ob have dx: "deref h x = Some (OGzipFile g)" by simp
    from gfile_roundtrip[OF dx raw] show ?thesis
      by (auto simp: fi class_of_def ob readable_def obj_data_def obj_pos_def raw(3))
  next
    fix fo assume fi: "?fi = file_iterator x" and ob: "ob = OFile fo"
    from ru d ob fx have f: "files e (f_name fo) = Some (f_data fo)" "f_pos fo \<le> max_offset e"
      by (auto simp: resource_unchanged_def)
    from d ob have dx: "deref h x = Some (OFile fo)" by simp
    from file_roundtrip[OF dx f] show ?thesis
      by (auto simp: fi class_of_def ob readable_def obj_data_def obj_pos_def)
  qed
  then obtain st fi' ob' where
    gs: "file_it_getstate h ?fi = Inr st"
    and ss: "file_it_setstate e h (new_file_it (class_of ?fi)) st = (None, h @ [ob'], fi')"
    and f': "file_f fi' = RefV (length h)" and o': "readable ob'"
    and eq: "obj_data ob' = obj_data ob" "obj_pos ob' = obj_pos ob"
    by blast
  let ?d = "dd\<lparr>bytebuffer := bytebuffer (c_stream it), charbuffer := charbuffer (c_stream it),
               linebuffer := linebuffer (c_stream it), errors := errors (c_stream it)\<rparr>"
  let ?it3 = "\<lparr>c_file_iterator = fi', stream_generator = ?gen, c_stream = ?d\<rparr>"
  let ?snap = "((class_of ?fi, st), ?gen, bytebuffer (c_stream it), charbuffer (c_stream it),
                linebuffer (c_stream it), errors (c_stream it))"
  have c: "codecs_capture h it = Inr ?snap"
    using gs by (simp add: codecs_capture_def codecs_iterator_getstate_def)
  have r: "codecs_restore e h fresh ?snap = (None, h @ [ob'], ?it3)"
    using ss dd f' by (simp add: codecs_restore_def codecs_iterator_setstate_def)
  have b: "buffers_of ?d = buffers_of (c_stream it)"
    by (simp add: buffers_of_def)
  have d3: "deref (h @ [ob']) (stream (c_stream ?it3)) = Some ob'"
    using dd(2) by (simp add: deref_alloc_new)
  have d0: "deref h (stream (c_stream it)) = Some ob"
    using s d by simp
  have o: "codecs_outputs n (h @ [ob']) ?it3 = codecs_outputs n h it" for n
    unfolding codecs_outputs_lines[OF d3 o'] codecs_outputs_lines[OF d0 fo]
    by (simp add: b eq)
  from c r o show ?thesis by blast
qed

lemma codecs_roundtrip:
  assumes init: "codecs_iterator_init cfg h0 f gen = (Inr it0, h1)"
    and w: "wraps_handle gen"
    and rw: "reads_within gen"
    and ru: "resource_unchanged e h1 (c_file_iterator it0)"
    and cons: "codecs_consume k h1 it0 = (vs, None, h2, it2)"
  shows "\<exists>snap h3 it3. codecs_capture h2 it2 = Inr snap \<and>
           codecs_restore e h2 fresh snap = (None, h3, it3) \<and>
           (\<forall>n. codecs_outputs n h3 it3 = codecs_outputs n h2 it2) \<and>
           (\<forall>n. codecs_outputs (k + n) h1 it0
                  = (vs @ fst (codecs_outputs n h3 it3), snd (codecs_outputs n h3 it3)))"
proof -
  from codecs_init_facts[OF init] have
    h1: "h1 = h0" and o: "is_open_file cfg h0 f" and g: "stream_generator it0 = gen"
    and fa: "factory gen f = Inr (c_stream it0)"
    and fi: "c_file_iterator it0 = (case deref h0 f of Some (OGzipFile g) \<Rightarrow> gfile_iterator f
                                | Some (OGzipOver g) \<Rightarrow> gfile_iterator f
                                | _ \<Rightarrow> file_iterator f)"
    by auto
  from wraps_handleD[OF w, of f] fa have s: "stream (c_stream it0) = f" by auto
  from o obtain ob where d: "deref h1 f = Some ob"
    by (auto simp: is_open_file_def h1 split: option.splits)
  have fx: "file_f (c_file_iterator it0) = f"
    using fi by (auto split: option.splits obj.splits)
  have dfi: "deref h1 (file_f (c_file_iterator it0)) = Some ob" using d fx by simp
  have fo: "readable ob" by (rule resource_unchanged_readable[OF dfi ru])
  have cls: "(\<exists>g. c_file_iterator it0 = gfile_iterator f \<and> ob = OGzipFile g) \<or>
              (\<exists>fo. c_file_iterator it0 = file_iterator f \<and> ob = OFile fo)"
    using fi d ru dfi by (cases ob) (auto simp: h1 resource_unchanged_def)
  have d0: "deref h1 (stream (c_stream it0)) = Some ob" using s d by simp
  obtain ws r b' p' where dl:
    "dec_lines (stream_generator it0) k (buffers_of (c_stream it0)) (obj_data ob) (obj_pos ob)
       = (ws, r, b', p')"
    by (cases "dec_lines (stream_generator it0) k (buffers_of (c_stream it0)) (obj_data ob) (obj_pos ob)")
       auto
  from cons codecs_consume_lines[OF d0 fo, of k] dl
  have h2: "h2 = store h1 f (obj_set_pos ob p')"
    and it2: "it2 = it0\<lparr>c_stream := with_buffers (c_stream it0) b'\<rparr>"
    by (auto simp: s)
  have s2: "stream (c_stream it2) = f" using it2 s by simp
  have fx2: "file_f (c_file_iterator it2) = f" using it2 fx by simp
  have d2: "deref h2 f = Some (obj_set_pos ob p')"
    unfolding h2 by (rule deref_store_same[OF d])
  have cls2: "(\<exists>g. c_file_iterator it2 = gfile_iterator f \<and> obj_set_pos ob p' = OGzipFile g) \<or>
              (\<exists>fo. c_file_iterator it2 = file_iterator f \<and> obj_set_pos ob p' = OFile fo)"
    using cls it2 by (auto simp: obj_set_pos_def)
  have pw: "p' \<le> max (obj_pos ob) (length (obj_data ob))"
    using dec_lines_within[OF _ dl] rw g by simp
  have ru2: "resource_unchanged e h2 (c_file_iterator it2)"
    using resource_unchanged_set_pos[OF dfi ru pw] fx it2 h2
    by simp
  have w2: "wraps_handle (stream_generator it2)" using it2 g w by simp
  from codecs_roundtrip_state[OF s2 fx2 d2 cls2 ru2 w2, of fresh]
  obtain snap h3 it3 where
    a: "codecs_capture h2 it2 = Inr snap" "codecs_restore e h2 fresh snap = (None, h3, it3)"
    and b: "\<forall>n. codecs_outputs n h3 it3 = codecs_outputs n h2 it2"
    by blast
  have "codecs_outputs (k + n) h1 it0
          = (vs @ fst (codecs_outputs n h3 it3), snd (codecs_outputs n h3 it3))" for n
    using codecs_outputs_append[OF cons, of n] b by simp
  with a b show ?thesis by blast
qed

text \<open>
  Claim C2. Restoring a decoded-stream iterator from a snapshot first restores the inner
  file iterator (a fresh iterator of the captured class, then its \<^verbatim>\<open>__setstate__\<close>, which
  reopens the resource); if that raises, nothing else happens. Then the captured factory
  is applied to the handle of the restored inner iterator, and the four captured
  buffers are written onto the decoder it returns. For a plain file whose name
  resolves, and a captured offset the file system allows: the heap gains the reopened
  file at the captured offset, and the decoder is the factory's result for that new
  handle with the captured buffers. After this, iteration continues from the captured
  position: for an iterator built by \<^verbatim>\<open>__init__\<close> with a factory that wraps the handle
  it is given and a decoder that reads forward and no further than the end of the
  content, over an unchanged resource, after \<open>k\<close> values have been consumed, capture and
  restore succeed, the restored iterator yields what the original would from there,
  and the \<open>k\<close> values followed by those are what the original yields straight through.
\<close>

theorem codecs_restore_order:
  "codecs_restore e h it ((c, st), gen, bb, cb, lb, er) =
     (case file_it_setstate e h (new_file_it c) st of
        (Some ex, h1, fi) \<Rightarrow> (Some ex, h1, it)
      | (None, h1, fi) \<Rightarrow>
          (case factory gen (file_f fi) of
             Inl ex \<Rightarrow> (Some ex, h1, it\<lparr>c_file_iterator := fi, stream_generator := gen\<rparr>)
           | Inr d \<Rightarrow>
               (None, h1,
                \<lparr>c_file_iterator = fi, stream_generator = gen,
                 c_stream = d\<lparr>bytebuffer := bb, charbuffer := cb, linebuffer := lb,
                              errors := er\<rparr>\<rparr>))) \<and>
   (\<forall>name pos m content dd.
      files e name = Some content \<and> pos \<le> max_offset e \<and>
      factory gen (RefV (length h)) = Inr dd \<longrightarrow>
      codecs_restore e h it ((Cls_file_iterator, name, pos, StrV m), gen, bb, cb, lb, er) =
        (None,
         h @ [OFile \<lparr>f_name = name, f_mode = m, f_pos = pos, f_data = content\<rparr>],
         \<lparr>c_file_iterator = file_iterator (RefV (length h)), stream_generator = gen,
          c_stream = dd\<lparr>bytebuffer := bb, charbuffer := cb, linebuffer := lb,
                        errors := er\<rparr>\<rparr>)) \<and>
   (codecs_iterator_init cfg h0 f gen0 = (Inr it0, h1) \<and> wraps_handle gen0 \<and>
    reads_within gen0 \<and> resource_unchanged e h1 (c_file_iterator it0) \<and>
    codecs_consume k h1 it0 = (vs, None, h2, it2) \<longrightarrow>
      (\<exists>snap h3 it3.
         codecs_capture h2 it2 = Inr snap \<and>
         codecs_restore e h2 it snap = (None, h3, it3) \<and>
         (\<forall>n. codecs_outputs n h3 it3 = codecs_outputs n h2 it2) \<and>
         (\<forall>n. codecs_outputs (k + n) h1 it0
                = (vs @ fst (codecs_outputs n h3 it3), snd (codecs_outputs n h3 it3)))))"
proof (intro conjI allI impI)
  show "codecs_restore e h it ((c, st), gen, bb, cb, lb, er) =
     (case file_it_setstate e h (new_file_it c) st of
        (Some ex, h1, fi) \<Rightarrow> (Some ex, h1, it)
      | (None, h1, fi) \<Rightarrow>
          (case factory gen (file_f fi) of
             Inl ex \<Rightarrow> (Some ex, h1, it\<lparr>c_file_iterator := fi, stream_generator := gen\<rparr>)
           | Inr d \<Rightarrow>
               (None, h1,
                \<lparr>c_file_iterator = fi, stream_generator = gen,
                 c_stream = d\<lparr>bytebuffer := bb, charbuffer := cb, linebuffer := lb,
                              errors := er\<rparr>\<rparr>)))"
    by (simp add: codecs_restore_def codecs_iterator_setstate_def Let_def
          split: prod.splits option.splits sum.splits)
next
  fix name pos m content dd
  assume a: "files e name = Some content \<and> pos \<le> max_offset e \<and>
      factory gen (RefV (length h)) = Inr dd"
  then show "codecs_restore e h it ((Cls_file_iterator, name, pos, StrV m), gen, bb, cb, lb, er) =
        (None,
         h @ [OFile \<lparr>f_name = name, f_mode = m, f_pos = pos, f_data = content\<rparr>],
         \<lparr>c_file_iterator = file_iterator (RefV (length h)), stream_generator = gen,
          c_stream = dd\<lparr>bytebuffer := bb, charbuffer := cb, linebuffer := lb,
                        errors := er\<rparr>\<rparr>)"
    by (simp add: codecs_restore_def codecs_iterator_setstate_def file_it_setstate_def
          new_file_it_def file_iterator_setstate_def py_open_def alloc_def seek_def
          store_alloc_new set_f_def)
next
  assume a: "codecs_iterator_init cfg h0 f gen0 = (Inr it0, h1) \<and> wraps_handle gen0 \<and>
    reads_within gen0 \<and> resource_unchanged e h1 (c_file_iterator it0) \<and>
    codecs_consume k h1 it0 = (vs, None, h2, it2)"
  then show "\<exists>snap h3 it3.
         codecs_capture h2 it2 = Inr snap \<and>
         codecs_restore e h2 it snap = (None, h3, it3) \<and>
         (\<forall>n. codecs_outputs n h3 it3 = codecs_outputs n h2 it2) \<and>
         (\<forall>n. codecs_outputs (k + n) h1 it0
                = (vs @ fst (codecs_outputs n h3 it3), snd (codecs_outputs n h3 it3)))"
    using codecs_roundtrip[of cfg h0 f gen0 it0 h1 e k vs h2 it2 it] by blast
qed

theorem codecs_restore_order_witness:
  "codecs_iterator_init \<lparr>six = PY3, NUMPY_AVAILABLE = False\<rparr> [OFile sample_file] (RefV 0)
       readahead_reader
     = (Inr \<lparr>c_file_iterator = file_iterator (RefV 0), stream_generator = readahead_reader,
             c_stream = \<lparr>stream = RefV 0, bytebuffer = [], charbuffer = [],
                         linebuffer = None, errors = ''strict''\<rparr>\<rparr>,
        [OFile sample_file]) \<and>
   wraps_handle readahead_reader \<and>
   reads_within readahead_reader \<and>
   resource_unchanged sample_env [OFile sample_file] (file_iterator (RefV 0)) \<and>
   codecs_consume (Suc 0) [OFile sample_file]
       \<lparr>c_file_iterator = file_iterator (RefV 0), stream_generator = readahead_reader,
        c_stream = \<lparr>stream = RefV 0, bytebuffer = [], charbuffer = [],
                    linebuffer = None, errors = ''strict''\<rparr>\<rparr>
     = ([StrV ''line1\<newline>''], None, [OFile (sample_file\<lparr>f_pos := 12\<rparr>)],
        \<lparr>c_file_iterator = file_iterator (RefV 0), stream_generator = readahead_reader,
         c_stream = \<lparr>stream = RefV 0, bytebuffer = [], charbuffer = ''line2\<newline>'',
                     linebuffer = None, errors = ''strict''\<rparr>\<rparr>) \<and>
   files sample_env ''f.txt'' = Some ''line1\<newline>line2\<newline>'' \<and>
   12 \<le> max_offset sample_env \<and>
   codecs_restore sample_env [OFile (sample_file\<lparr>f_pos := 12\<rparr>)]
       \<lparr>c_file_iterator = file_iterator NoneV, stream_generator = failing_reader,
        c_stream = \<lparr>stream = NoneV, bytebuffer = [], charbuffer = [],
                    linebuffer = None, errors = []\<rparr>\<rparr>
       ((Cls_file_iterator, ''f.txt'', 12, StrV ''r''), readahead_reader,
        [], ''line2\<newline>'', None, ''strict'')
     = (None,
        [OFile (sample_file\<lparr>f_pos := 12\<rparr>), OFile (sample_file\<lparr>f_pos := 12\<rparr>)],
        \<lparr>c_file_iterator = file_iterator (RefV 1), stream_generator = readahead_reader,
         c_stream = \<lparr>stream = RefV 1, bytebuffer = [], charbuffer = ''line2\<newline>'',
                     linebuffer = None, errors = ''strict''\<rparr>\<rparr>) \<and>
   (\<exists>snap h3 it3.
      codecs_capture [OFile (sample_file\<lparr>f_pos := 12\<rparr>)]
          \<lparr>c_file_iterator = file_iterator (RefV 0), stream_generator = readahead_reader,
           c_stream = \<lparr>stream = RefV 0, bytebuffer = [], charbuffer = ''line2\<newline>'',
                       linebuffer = None, errors = ''strict''\<rparr>\<rparr> = Inr snap \<and>
      codecs_restore sample_env [OFile (sample_file\<lparr>f_pos := 12\<rparr>)]
          \<lparr>c_file_iterator = file_iterator NoneV, stream_generator = failing_reader,
           c_stream = \<lparr>stream = NoneV, bytebuffer = [], charbuffer = [],
                       linebuffer = None, errors = []\<rparr>\<rparr> snap = (None, h3, it3) \<and>
      codecs_outputs 5 h3 it3 = ([StrV ''line2\<newline>''], Some StopIteration))"
proof -
  let ?cfg = "\<lparr>six = PY3, NUMPY_AVAILABLE = False\<rparr>"
  let ?h = "[OFile sample_file]"
  let ?h2 = "[OFile (sample_file\<lparr>f_pos := 12\<rparr>)]"
  let ?it0 = "\<lparr>c_file_iterator = file_iterator (RefV 0), stream_generator = readahead_reader,
        c_stream = \<lparr>stream = RefV 0, bytebuffer = [], charbuffer = [],
                    linebuffer = None, errors = ''strict''\<rparr>\<rparr>"
  let ?it2 = "\<lparr>c_file_iterator = file_iterator (RefV 0), stream_generator = readahead_reader,
         c_stream = \<lparr>stream = RefV 0, bytebuffer = [], charbuffer = ''line2\<newline>'',
                     linebuffer = None, errors = ''strict''\<rparr>\<rparr>"
  let ?fresh = "\<lparr>c_file_iterator = file_iterator NoneV, stream_generator = failing_reader,
        c_stream = \<lparr>stream = NoneV, bytebuffer = [], charbuffer = [],
                    linebuffer = None, errors = []\<rparr>\<rparr>"
  have a: "codecs_iterator_init ?cfg ?h (RefV 0) readahead_reader = (Inr ?it0, ?h)"
    by (simp add: codecs_iterator_init_def isinstance_def instance_of_def deref_def iter_'_def
          is_fileobj_def readahead_reader_def)
  have c: "resource_unchanged sample_env ?h (c_file_iterator ?it0)"
    by (simp add: resource_unchanged_def deref_def sample_env_def sample_file_def reads_only_def)
  have m: "(12::nat) \<le> max_offset sample_env"
    by (simp add: sample_env_def)
  have d: "codecs_consume (Suc 0) ?h ?it0 = ([StrV ''line1\<newline>''], None, ?h2, ?it2)"
    by (simp add: codecs_iterator_next_def deref_def is_fileobj_def readable_def obj_data_def
          obj_pos_def obj_set_pos_def buffers_of_def with_buffers_def readahead_reader_def
          read_line_def sample_file_def store_def)
  have f: "files sample_env ''f.txt'' = Some ''line1\<newline>line2\<newline>''"
    by (simp add: sample_env_def)
  have g: "factory readahead_reader (RefV (length ?h2))
             = Inr \<lparr>stream = RefV 1, bytebuffer = [], charbuffer = [], linebuffer = None,
                    errors = ''strict''\<rparr>"
    by (simp add: readahead_reader_def)
  note t = codecs_restore_order[of sample_env ?h2 ?fresh Cls_file_iterator
             "(''f.txt'', 12, StrV ''r'')" readahead_reader "[]" "''line2\<newline>''" None
             "''strict''" ?cfg ?h "RefV 0" readahead_reader ?it0 ?h "Suc 0"
             "[StrV ''line1\<newline>'']" ?h2 ?it2]
  note t2 = t[THEN conjunct2, THEN conjunct1, rule_format, OF conjI[OF f conjI[OF m g]]]
  note t3 = t[THEN conjunct2, THEN conjunct2, rule_format]
  have r: "codecs_restore sample_env ?h2 ?fresh
       ((Cls_file_iterator, ''f.txt'', 12, StrV ''r''), readahead_reader,
        [], ''line2\<newline>'', None, ''strict'')
     = (None, [OFile (sample_file\<lparr>f_pos := 12\<rparr>), OFile (sample_file\<lparr>f_pos := 12\<rparr>)],
        \<lparr>c_file_iterator = file_iterator (RefV 1), stream_generator = readahead_reader,
         c_stream = \<lparr>stream = RefV 1, bytebuffer = [], charbuffer = ''line2\<newline>'',
                     linebuffer = None, errors = ''strict''\<rparr>\<rparr>)"
    unfolding t2 by (simp add: sample_file_def)
  from t3 a wraps_handle_readahead reads_within_readahead c d obtain snap h3 it3 where
    s: "codecs_capture ?h2 ?it2 = Inr snap" "codecs_restore sample_env ?h2 ?fresh snap = (None, h3, it3)"
       "\<forall>n. codecs_outputs n h3 it3 = codecs_outputs n ?h2 ?it2"
    by auto
  have e: "codecs_outputs 5 ?h2 ?it2 = ([StrV ''line2\<newline>''], Some StopIteration)"
    by (simp add: codecs_outputs_def eval_nat_numeral codecs_iterator_next_def deref_def
          is_fileobj_def readable_def obj_data_def obj_pos_def
          obj_set_pos_def buffers_of_def with_buffers_def readahead_reader_def read_line_def
          sample_file_def store_def)
  from s(3) e have o: "codecs_outputs 5 h3 it3 = ([StrV ''line2\<newline>''], Some StopIteration)"
    by simp
  from s(1,2) o have ex: "\<exists>snap h3 it3.
      codecs_capture ?h2 ?it2 = Inr snap \<and>
      codecs_restore sample_env ?h2 ?fresh snap = (None, h3, it3) \<and>
      codecs_outputs 5 h3 it3 = ([StrV ''line2\<newline>''], Some StopIteration)"
    by blast
  from a wraps_handle_readahead reads_within_readahead c d f m r ex show ?thesis
    by simp
qed

end
